theory Spec2Isabelle
  imports Complex_Main
begin

section \<open>JavaScript values\<close>

text \<open>
  Request bodies are parsed JSON, so every field the controllers destructure is an
  arbitrary JSON value, or \<open>undefined\<close> when the key is missing. Numbers are modelled
  as exact rationals (floating-point rounding and overflow are outside the model), strings
  as lists of 8-bit characters.
\<close>

datatype jsval =
    JUndefined
  | JNull
  | JBool bool
  | JNum rat
  | JStr string
  | JArr "jsval list"
  | JObj "(string \<times> jsval) list"

text \<open>Truthiness, as used by \<open>!x\<close>, \<open>x && y\<close> and \<open>x || y\<close>.\<close>

fun truthy :: "jsval \<Rightarrow> bool" where
  "truthy JUndefined = False"
| "truthy JNull = False"
| "truthy (JBool b) = b"
| "truthy (JNum n) = (n \<noteq> 0)"
| "truthy (JStr s) = (s \<noteq> [])"
| "truthy (JArr xs) = True"
| "truthy (JObj kvs) = True"

fun typeof :: "jsval \<Rightarrow> string" where
  "typeof JUndefined = ''undefined''"
| "typeof JNull = ''object''"
| "typeof (JBool b) = ''boolean''"
| "typeof (JNum n) = ''number''"
| "typeof (JStr s) = ''string''"
| "typeof (JArr xs) = ''object''"
| "typeof (JObj kvs) = ''object''"

text \<open>\<open>a || b\<close> on values.\<close>

definition js_or :: "jsval \<Rightarrow> jsval \<Rightarrow> jsval" where
  "js_or a b = (if truthy a then a else b)"

text \<open>
  A request body after destructuring: every key reads as a value, \<open>undefined\<close> when the
  key is missing.
\<close>

type_synonym body = "string \<Rightarrow> jsval"

definition obj :: "(string \<times> jsval) list \<Rightarrow> body" where
  "obj kvs k = (case map_of kvs k of None \<Rightarrow> JUndefined | Some v \<Rightarrow> v)"

text \<open>
  An error handed to \<open>next(error)\<close> by a controller's \<open>catch\<close>: a method call on a
  value that has no such method, or an error thrown by a library call, with its message.
\<close>

datatype js_error = TypeError | LibraryError string

text \<open>
  White space stripped by \<open>trim()\<close> and matched by \<open>\s\<close>, among the code units below
  256: tab, line feed, vertical tab, form feed, carriage return, space and the no-break
  space.
\<close>

definition isSpace :: "char \<Rightarrow> bool" where
  "isSpace c =
     (c \<in> set [CHR 0x09, CHR 0x0A, CHR 0x0B, CHR 0x0C, CHR 0x0D, CHR 0x20, CHR 0xA0])"

definition trim :: "string \<Rightarrow> string" where
  "trim s = rev (dropWhile isSpace (rev (dropWhile isSpace s)))"

text \<open>
  \<open>toLowerCase()\<close> among the code units below 256: the letters A to Z and the capital
  letters from 0xC0 to 0xDE (the multiplication sign 0xD7 is no letter) move up by 32;
  every other character is kept.
\<close>

definition upperCase :: "char list" where
  "upperCase =
     ''ABCDEFGHIJKLMNOPQRSTUVWXYZ'' @
     [CHR 0xC0, CHR 0xC1, CHR 0xC2, CHR 0xC3, CHR 0xC4, CHR 0xC5, CHR 0xC6, CHR 0xC7,
      CHR 0xC8, CHR 0xC9, CHR 0xCA, CHR 0xCB, CHR 0xCC, CHR 0xCD, CHR 0xCE, CHR 0xCF,
      CHR 0xD0, CHR 0xD1, CHR 0xD2, CHR 0xD3, CHR 0xD4, CHR 0xD5, CHR 0xD6,
      CHR 0xD8, CHR 0xD9, CHR 0xDA, CHR 0xDB, CHR 0xDC, CHR 0xDD, CHR 0xDE]"

definition lowerCase :: "char list" where
  "lowerCase =
     ''abcdefghijklmnopqrstuvwxyz'' @
     [CHR 0xE0, CHR 0xE1, CHR 0xE2, CHR 0xE3, CHR 0xE4, CHR 0xE5, CHR 0xE6, CHR 0xE7,
      CHR 0xE8, CHR 0xE9, CHR 0xEA, CHR 0xEB, CHR 0xEC, CHR 0xED, CHR 0xEE, CHR 0xEF,
      CHR 0xF0, CHR 0xF1, CHR 0xF2, CHR 0xF3, CHR 0xF4, CHR 0xF5, CHR 0xF6,
      CHR 0xF8, CHR 0xF9, CHR 0xFA, CHR 0xFB, CHR 0xFC, CHR 0xFD, CHR 0xFE]"

definition toLowerCase_char :: "char \<Rightarrow> char" where
  "toLowerCase_char c =
     (case map_of (zip upperCase lowerCase) c of
        None \<Rightarrow> c
      | Some l \<Rightarrow> l)"

definition toLowerCase :: "string \<Rightarrow> string" where
  "toLowerCase s = map toLowerCase_char s"

text \<open>\<open>v.trim()\<close> and \<open>v.toLowerCase()\<close> on a value: a TypeError unless it is a string.\<close>

fun js_trim :: "jsval \<Rightarrow> js_error + string" where
  "js_trim (JStr s) = Inr (trim s)"
| "js_trim v = Inl TypeError"

fun js_toLowerCase :: "jsval \<Rightarrow> js_error + string" where
  "js_toLowerCase (JStr s) = Inr (toLowerCase s)"
| "js_toLowerCase v = Inl TypeError"

text \<open>\<open>xs.includes(v)\<close> for an array of strings.\<close>

fun includes_js :: "string list \<Rightarrow> jsval \<Rightarrow> bool" where
  "includes_js xs (JStr s) = (s \<in> set xs)"
| "includes_js xs v = False"

text \<open>
  \<open>n >= v\<close> for an array length \<open>n\<close>. The right operand is converted by ToNumber:
  \<open>null\<close> is 0, a boolean 0 or 1, \<open>undefined\<close> is NaN. The conversion of strings,
  arrays and objects is the language's own parsing and is taken as the parameter
  \<open>toNum\<close>, \<open>None\<close> standing for NaN. A comparison with NaN is false.
\<close>

fun ToNumber :: "(jsval \<Rightarrow> rat option) \<Rightarrow> jsval \<Rightarrow> rat option" where
  "ToNumber toNum JUndefined = None"
| "ToNumber toNum JNull = Some 0"
| "ToNumber toNum (JBool b) = Some (if b then 1 else 0)"
| "ToNumber toNum (JNum c) = Some c"
| "ToNumber toNum v = toNum v"

definition js_ge :: "(jsval \<Rightarrow> rat option) \<Rightarrow> nat \<Rightarrow> jsval \<Rightarrow> bool" where
  "js_ge toNum n v = (case ToNumber toNum v of None \<Rightarrow> False | Some c \<Rightarrow> c \<le> of_nat n)"

section \<open>Data model\<close>

text \<open>The participant snapshot pushed by \<open>registerForEvent\<close>.\<close>

record participant =
  userId :: string
  name_p :: string
  email_p :: string
  registeredAt :: string

text \<open>
  An event object. \<open>date\<close>, \<open>time\<close> and \<open>maxParticipants\<close> hold whatever value the
  request carried: creation checks that date and time are strings, an update does not.
\<close>

record event =
  id_e :: string
  title :: string
  description :: string
  date :: jsval
  time :: jsval
  location :: string
  maxParticipants :: jsval
  organizerId :: string
  participants :: "participant list"
  createdAt :: string
  updatedAt :: string

text \<open>A user object of the user store; \<open>role\<close> is \<open>role || "attendee"\<close>.\<close>

record user =
  id_u :: string
  name_u :: string
  email_u :: string
  password_u :: string
  role_u :: jsval
  createdAt_u :: string

text \<open>\<open>req.user\<close>, the identity snapshot set by \<open>authenticate\<close>.\<close>

record identity =
  id_r :: string
  name_r :: string
  email_r :: string
  role_r :: jsval

text \<open>The reduced event view returned by a successful registration.\<close>

record event_view =
  id_v :: string
  title_v :: string
  date_v :: jsval
  time_v :: jsval

record user_view =
  id_w :: string
  name_w :: string
  email_w :: string
  role_w :: jsval

text \<open>JSON bodies sent by the controllers, and the outcome of a handler.\<close>

datatype payload =
    Errors "string list"
  | Error string
  | Message string
  | MessageEvent string "event option"
  | MessageView string event_view
  | MessageUserToken string user_view string

datatype response =
    Res nat payload
  | Next js_error

fun status :: "response \<Rightarrow> nat option" where
  "status (Res n p) = Some n"
| "status (Next e) = None"

section \<open>The event store (data/events.js)\<close>

fun findIndex :: "('a \<Rightarrow> bool) \<Rightarrow> 'a list \<Rightarrow> nat option" where
  "findIndex P [] = None"
| "findIndex P (x # xs) = (if P x then Some 0 else map_option Suc (findIndex P xs))"

definition findEventById :: "string \<Rightarrow> event list \<Rightarrow> event option" where
  "findEventById i events = find (\<lambda>event. id_e event = i) events"

definition addEvent :: "event \<Rightarrow> event list \<Rightarrow> event list" where
  "addEvent event events = events @ [event]"

text \<open>
  The object built by \<open>updateEventById\<close>: a key is present only when its spread was taken.
\<close>

record updatedData =
  title_d :: "string option"
  description_d :: "string option"
  date_d :: "jsval option"
  time_d :: "jsval option"
  location_d :: "string option"
  maxParticipants_d :: "jsval option"
  updatedAt_d :: string

text \<open>\<open>{ ...event, ...updatedData }\<close>\<close>

definition merge :: "event \<Rightarrow> updatedData \<Rightarrow> event" where
  "merge event d =
     event\<lparr> title := (case title_d d of None \<Rightarrow> title event | Some v \<Rightarrow> v),
            description := (case description_d d of None \<Rightarrow> description event | Some v \<Rightarrow> v),
            date := (case date_d d of None \<Rightarrow> date event | Some v \<Rightarrow> v),
            time := (case time_d d of None \<Rightarrow> time event | Some v \<Rightarrow> v),
            location := (case location_d d of None \<Rightarrow> location event | Some v \<Rightarrow> v),
            maxParticipants :=
              (case maxParticipants_d d of None \<Rightarrow> maxParticipants event | Some v \<Rightarrow> v),
            updatedAt := updatedAt_d d \<rparr>"

definition updateEvent :: "string \<Rightarrow> updatedData \<Rightarrow> event list \<Rightarrow> event option \<times> event list" where
  "updateEvent i d events =
     (case findIndex (\<lambda>event. id_e event = i) events of
        None \<Rightarrow> (None, events)
      | Some index \<Rightarrow>
          (let events' = events[index := merge (events ! index) d]
           in (Some (events' ! index), events')))"

definition deleteEvent :: "string \<Rightarrow> event list \<Rightarrow> event option \<times> event list" where
  "deleteEvent i events =
     (case findIndex (\<lambda>event. id_e event = i) events of
        None \<Rightarrow> (None, events)
      | Some index \<Rightarrow> (Some (events ! index), take index events @ drop (Suc index) events))"

section \<open>Validators (utils/validators.js)\<close>

text \<open>
  \<open>!v || typeof v !== "string" || v.trim().length === 0\<close>; the last disjunct is only
  evaluated on a string.
\<close>

definition blank :: "jsval \<Rightarrow> bool" where
  "blank v =
     (\<not> truthy v \<or> typeof v \<noteq> ''string'' \<or>
      (case v of JStr s \<Rightarrow> length (trim s) = 0 | _ \<Rightarrow> False))"

definition required :: "jsval \<Rightarrow> string \<Rightarrow> string list" where
  "required v msg = (if blank v then [msg] else [])"

definition validateEvent :: "jsval \<Rightarrow> jsval \<Rightarrow> jsval \<Rightarrow> jsval \<Rightarrow> jsval \<Rightarrow> string list" where
  "validateEvent ttl dsc dt tm loc =
     required ttl ''Title is required'' @
     required dsc ''Description is required'' @
     (if \<not> truthy dt \<or> typeof dt \<noteq> ''string'' then [''Date is required''] else []) @
     (if \<not> truthy tm \<or> typeof tm \<noteq> ''string'' then [''Time is required''] else []) @
     required loc ''Location is required''"

section \<open>The event controller (controllers/eventController.js)\<close>

text \<open>
  Every handler takes the store and returns its response with the store it leaves. The
  generated identifier and the clock readings are inputs.
\<close>

definition createEvent ::
  "identity \<Rightarrow> body \<Rightarrow> string \<Rightarrow> string \<Rightarrow> string \<Rightarrow> event list \<Rightarrow> response \<times> event list" where
  "createEvent usr b newId now1 now2 events =
     (let errors = validateEvent (b ''title'') (b ''description'') (b ''date'') (b ''time'')
                     (b ''location'')
      in if length errors > 0 then (Res 400 (Errors errors), events)
         else
           (case js_trim (b ''title'') of Inl e \<Rightarrow> (Next e, events) | Inr ttl \<Rightarrow>
            case js_trim (b ''description'') of Inl e \<Rightarrow> (Next e, events) | Inr dsc \<Rightarrow>
            case js_trim (b ''location'') of Inl e \<Rightarrow> (Next e, events) | Inr loc \<Rightarrow>
              (let newEvent =
                     \<lparr> id_e = newId, title = ttl, description = dsc, date = b ''date'',
                       time = b ''time'', location = loc,
                       maxParticipants = js_or (b ''maxParticipants'') JNull,
                       organizerId = id_r usr, participants = [],
                       createdAt = now1, updatedAt = now2 \<rparr>
               in (Res 201 (MessageEvent ''Event created successfully'' (Some newEvent)),
                   addEvent newEvent events))))"

text \<open>\<open>...(v && { k: v.trim() })\<close> and \<open>...(v && { k: v })\<close>\<close>

definition spreadTrimmed :: "jsval \<Rightarrow> js_error + string option" where
  "spreadTrimmed v =
     (if truthy v then (case js_trim v of Inl e \<Rightarrow> Inl e | Inr s \<Rightarrow> Inr (Some s))
      else Inr None)"

definition spreadValue :: "jsval \<Rightarrow> jsval option" where
  "spreadValue v = (if truthy v then Some v else None)"

definition buildUpdatedData :: "body \<Rightarrow> string \<Rightarrow> js_error + updatedData" where
  "buildUpdatedData b now =
     (case spreadTrimmed (b ''title'') of Inl e \<Rightarrow> Inl e | Inr ttl \<Rightarrow>
      case spreadTrimmed (b ''description'') of Inl e \<Rightarrow> Inl e | Inr dsc \<Rightarrow>
      case spreadTrimmed (b ''location'') of Inl e \<Rightarrow> Inl e | Inr loc \<Rightarrow>
        Inr \<lparr> title_d = ttl, description_d = dsc,
              date_d = spreadValue (b ''date''), time_d = spreadValue (b ''time''),
              location_d = loc,
              maxParticipants_d =
                (if b ''maxParticipants'' \<noteq> JUndefined then Some (b ''maxParticipants'')
                 else None),
              updatedAt_d = now \<rparr>)"

definition updateEventById ::
  "string \<Rightarrow> identity \<Rightarrow> body \<Rightarrow> string \<Rightarrow> event list \<Rightarrow> response \<times> event list" where
  "updateEventById i usr b now events =
     (case findEventById i events of
        None \<Rightarrow> (Res 404 (Error ''Event not found''), events)
      | Some event \<Rightarrow>
          if organizerId event \<noteq> id_r usr
          then (Res 403 (Error ''Access denied. Only the event organizer can update this event.''),
                events)
          else
            (case buildUpdatedData b now of
               Inl e \<Rightarrow> (Next e, events)
             | Inr d \<Rightarrow>
                 (case updateEvent i d events of
                    (updatedEvent, events') \<Rightarrow>
                      (Res 200 (MessageEvent ''Event updated successfully'' updatedEvent),
                       events'))))"

definition deleteEventById ::
  "string \<Rightarrow> identity \<Rightarrow> event list \<Rightarrow> response \<times> event list" where
  "deleteEventById i usr events =
     (case findEventById i events of
        None \<Rightarrow> (Res 404 (Error ''Event not found''), events)
      | Some event \<Rightarrow>
          if organizerId event \<noteq> id_r usr
          then (Res 403 (Error ''Access denied. Only the event organizer can delete this event.''),
                events)
          else (Res 200 (Message ''Event deleted successfully''), snd (deleteEvent i events)))"

section \<open>The notification (services/emailService.js)\<close>

record mailOptions =
  from_m :: string
  to_m :: string
  subject_m :: string
  html_m :: string

text \<open>What \<open>sendRegistrationEmail\<close> resolves to.\<close>

datatype mailResult = Sent string | NotSent string

text \<open>
  The transporter is an input: it answers a message with the message id, or fails with an
  error message (\<open>Inl\<close>). The function catches the failure; what it writes to the console
  is returned with its result.
\<close>

definition sendRegistrationEmail ::
  "(mailOptions \<Rightarrow> string + string) \<Rightarrow> string \<Rightarrow> string \<Rightarrow> string \<Rightarrow> mailResult \<times> string list" where
  "sendRegistrationEmail sendMail userEmail userName eventTitle =
     (let opts =
            \<lparr> from_m = ''\"Event Management Platform\" <noreply@eventplatform.com>'',
              to_m = userEmail,
              subject_m = ''Registration Confirmed: '' @ eventTitle,
              html_m =
                concat (map (\<lambda>line. CHR 0x0A # replicate 8 (CHR '' '') @ line)
                  [''<h2>Event Registration Confirmation</h2>'',
                   ''<p>Hello <strong>'' @ userName @ ''</strong>,</p>'',
                   ''<p>You have successfully registered for <strong>'' @ eventTitle @
                     ''</strong>.</p>'',
                   ''<p>We look forward to seeing you at the event!</p>'',
                   ''<br/>'',
                   ''<p>Best regards,</p>'',
                   ''<p>Virtual Event Management Platform</p>'']) @
                CHR 0x0A # replicate 6 (CHR '' '') \<rparr>
      in case sendMail opts of
           Inr messageId \<Rightarrow>
             (Sent messageId,
              [''Registration email sent to '' @ userEmail @ '': '' @ messageId])
         | Inl msg \<Rightarrow>
             (NotSent msg, [''Failed to send email to '' @ userEmail @ '': '' @ msg]))"

section \<open>Registration for an event\<close>

text \<open>
  \<open>event.participants.push(participant)\<close> mutates the object that \<open>find\<close> returned, the
  first one in the store with the requested identifier.
\<close>

definition pushParticipant :: "string \<Rightarrow> participant \<Rightarrow> event list \<Rightarrow> event list" where
  "pushParticipant i p events =
     (case findIndex (\<lambda>event. id_e event = i) events of
        None \<Rightarrow> events
      | Some index \<Rightarrow>
          events[index := (events ! index)\<lparr> participants := participants (events ! index) @ [p] \<rparr>])"

definition alreadyRegistered :: "event \<Rightarrow> identity \<Rightarrow> participant option" where
  "alreadyRegistered event usr = find (\<lambda>p. userId p = id_r usr) (participants event)"

definition full :: "(jsval \<Rightarrow> rat option) \<Rightarrow> event \<Rightarrow> bool" where
  "full toNum event =
     (truthy (maxParticipants event) \<and>
      js_ge toNum (length (participants event)) (maxParticipants event))"

text \<open>
  The result is the response, the console output of the notification, and the store. The
  notification is started after the push and its result is not looked at.
\<close>

definition registerForEvent ::
  "(jsval \<Rightarrow> rat option) \<Rightarrow> (mailOptions \<Rightarrow> string + string) \<Rightarrow> string \<Rightarrow> identity \<Rightarrow> string \<Rightarrow>
     event list \<Rightarrow> (response \<times> string list) \<times> event list" where
  "registerForEvent toNum sendMail i usr now events =
     (case findEventById i events of
        None \<Rightarrow> ((Res 404 (Error ''Event not found''), []), events)
      | Some event \<Rightarrow>
          if alreadyRegistered event usr \<noteq> None
          then ((Res 409 (Error ''You are already registered for this event''), []), events)
          else if full toNum event
          then ((Res 400 (Error ''Event has reached maximum number of participants''), []),
                events)
          else
            (let p = \<lparr> userId = id_r usr, name_p = name_r usr, email_p = email_r usr,
                       registeredAt = now \<rparr>;
                 events' = pushParticipant i p events;
                 console = snd (sendRegistrationEmail sendMail (email_r usr) (name_r usr)
                                  (title event))
             in ((Res 200 (MessageView ''Successfully registered for the event''
                    \<lparr> id_v = id_e event, title_v = title event, date_v = date event,
                      time_v = time event \<rparr>), console),
                 events')))"

section \<open>Role gate and routes (middleware/authMiddleware.js, routes/eventRoutes.js)\<close>

text \<open>
  \<open>authorize(...roles)\<close>: \<open>None\<close> is the call of \<open>next()\<close>. The identity is the one
  \<open>authenticate\<close> has attached to the request, if any.
\<close>

definition authorize :: "string list \<Rightarrow> identity option \<Rightarrow> response option" where
  "authorize roles u =
     (case u of
        None \<Rightarrow> Some (Res 401 (Error ''Authentication required.''))
      | Some usr \<Rightarrow>
          if \<not> includes_js roles (role_r usr)
          then Some (Res 403 (Error ''Access denied. Insufficient permissions.''))
          else None)"

text \<open>\<open>PUT /events/:id\<close> and \<open>DELETE /events/:id\<close> for an authenticated caller.\<close>

definition route_put ::
  "string \<Rightarrow> identity \<Rightarrow> body \<Rightarrow> string \<Rightarrow> event list \<Rightarrow> response \<times> event list" where
  "route_put i usr b now events =
     (case authorize [''organizer''] (Some usr) of
        Some r \<Rightarrow> (r, events)
      | None \<Rightarrow> updateEventById i usr b now events)"

definition route_delete :: "string \<Rightarrow> identity \<Rightarrow> event list \<Rightarrow> response \<times> event list" where
  "route_delete i usr events =
     (case authorize [''organizer''] (Some usr) of
        Some r \<Rightarrow> (r, events)
      | None \<Rightarrow> deleteEventById i usr events)"

section \<open>The user store and user registration (data/users.js, the auth controller)\<close>

text \<open>\<open>users.find((user) => user.email === email)\<close>, for any value \<open>email\<close>.\<close>

definition findUserByEmail :: "jsval \<Rightarrow> user list \<Rightarrow> user option" where
  "findUserByEmail email users = find (\<lambda>user. JStr (email_u user) = email) users"

definition findUserById :: "string \<Rightarrow> user list \<Rightarrow> user option" where
  "findUserById i users = find (\<lambda>user. id_u user = i) users"

definition addUser :: "user \<Rightarrow> user list \<Rightarrow> user list" where
  "addUser user users = users @ [user]"

text \<open>
  The test of \<open>/^[^\s@]+@[^\s@]+\.[^\s@]+$/\<close>: the string is a non-empty run without white
  space or \<open>@\<close>, then \<open>@\<close>, then two more such runs with a dot between them.
\<close>

definition plain :: "char \<Rightarrow> bool" where
  "plain c = (\<not> isSpace c \<and> c \<noteq> CHR ''@'')"

definition emailRegex_test :: "string \<Rightarrow> bool" where
  "emailRegex_test s =
     list_ex (\<lambda>i. list_ex (\<lambda>j.
         0 < i \<and> s ! i = CHR ''@'' \<and> i + 1 < j \<and> s ! j = CHR ''.'' \<and> j + 1 < length s \<and>
         list_all (\<lambda>k. k = i \<or> k = j \<or> plain (s ! k)) [0..<length s])
       [0..<length s]) [0..<length s]"

definition validateRegistration :: "jsval \<Rightarrow> jsval \<Rightarrow> jsval \<Rightarrow> jsval \<Rightarrow> string list" where
  "validateRegistration nm email password role =
     required nm ''Name is required'' @
     (if \<not> truthy email \<or> typeof email \<noteq> ''string'' then [''Email is required'']
      else (case email of
              JStr s \<Rightarrow> if \<not> emailRegex_test s then [''Invalid email format''] else []
            | _ \<Rightarrow> [])) @
     (if \<not> truthy password \<or> typeof password \<noteq> ''string'' then [''Password is required'']
      else (case password of
              JStr s \<Rightarrow> if length s < 6 then [''Password must be at least 6 characters''] else []
            | _ \<Rightarrow> [])) @
     (if truthy role \<and> \<not> includes_js [''organizer'', ''attendee''] role
      then [''Role must be either 'organizer' or 'attendee'' @ [CHR 0x27]] else [])"

text \<open>
  \<open>register\<close>. The hashing and the signing of the token are library calls and are inputs,
  as are the generated identifier and the clock reading. Either call may throw: the hashing
  before the user is added, the signing after \<open>addUser\<close>, so that its error reaches
  \<open>next(error)\<close> with the user already in the store.
\<close>

definition register ::
  "(jsval \<Rightarrow> js_error + string) \<Rightarrow> (string \<Rightarrow> string \<Rightarrow> jsval \<Rightarrow> js_error + string) \<Rightarrow> body \<Rightarrow>
     string \<Rightarrow> string \<Rightarrow> user list \<Rightarrow> response \<times> user list" where
  "register hash sign b newId now users =
     (let errors = validateRegistration (b ''name'') (b ''email'') (b ''password'') (b ''role'')
      in if length errors > 0 then (Res 400 (Errors errors), users)
         else if findUserByEmail (b ''email'') users \<noteq> None
         then (Res 409 (Error ''User with this email already exists''), users)
         else
           (case hash (b ''password'') of Inl e \<Rightarrow> (Next e, users) | Inr hashedPassword \<Rightarrow>
            case js_trim (b ''name'') of Inl e \<Rightarrow> (Next e, users) | Inr nm \<Rightarrow>
            case js_toLowerCase (b ''email'') of Inl e \<Rightarrow> (Next e, users) | Inr lower \<Rightarrow>
              (let newUser =
                     \<lparr> id_u = newId, name_u = nm, email_u = trim lower,
                       password_u = hashedPassword,
                       role_u = js_or (b ''role'') (JStr ''attendee''),
                       createdAt_u = now \<rparr>;
                   users' = addUser newUser users
               in case sign (id_u newUser) (email_u newUser) (role_u newUser) of
                    Inl e \<Rightarrow> (Next e, users')
                  | Inr token \<Rightarrow>
                      (Res 201 (MessageUserToken ''User registered successfully''
                         \<lparr> id_w = id_u newUser, name_w = name_u newUser,
                           email_w = email_u newUser, role_w = role_u newUser \<rparr> token),
                       users'))))"

section \<open>Sequential runs and the capacity of an event\<close>

text \<open>The four operations on the event store as requests, handled one after another.\<close>

datatype request =
    CreateEvent identity body string string string
  | UpdateEventById string identity body string
  | DeleteEventById string identity
  | RegisterForEvent string identity string "mailOptions \<Rightarrow> string + string"

fun handle :: "(jsval \<Rightarrow> rat option) \<Rightarrow> request \<Rightarrow> event list \<Rightarrow> response \<times> event list" where
  "handle toNum (CreateEvent usr b newId now1 now2) events = createEvent usr b newId now1 now2 events"
| "handle toNum (UpdateEventById i usr b now) events = updateEventById i usr b now events"
| "handle toNum (DeleteEventById i usr) events = deleteEventById i usr events"
| "handle toNum (RegisterForEvent i usr now sendMail) events =
     (case registerForEvent toNum sendMail i usr now events of
        ((r, console), events') \<Rightarrow> (r, events'))"

fun run :: "(jsval \<Rightarrow> rat option) \<Rightarrow> request list \<Rightarrow> event list \<Rightarrow> response list \<times> event list" where
  "run toNum [] events = ([], events)"
| "run toNum (r # rs) events =
     (case handle toNum r events of
        (res, events') \<Rightarrow> (case run toNum rs events' of (ress, events'') \<Rightarrow> (res # ress, events'')))"

text \<open>
  The capacity of an event, when it is set: \<open>registerForEvent\<close> looks at
  \<open>maxParticipants\<close> only when it is truthy, and then as a number.
\<close>

definition capacity :: "(jsval \<Rightarrow> rat option) \<Rightarrow> event \<Rightarrow> rat option" where
  "capacity toNum event =
     (if truthy (maxParticipants event) then ToNumber toNum (maxParticipants event) else None)"

definition capacityInvariant :: "(jsval \<Rightarrow> rat option) \<Rightarrow> event list \<Rightarrow> bool" where
  "capacityInvariant toNum events =
     list_all (\<lambda>event. case capacity toNum event of
                          None \<Rightarrow> True
                        | Some c \<Rightarrow> of_nat (length (participants event)) \<le> c) events"

text \<open>
  A \<open>maxParticipants\<close> value that is falsy, or a whole number not below \<open>n\<close>; a request
  is admissible when the value it stores is such a value for the participants the event
  has (none for a new event, the current ones for an update that carries the key).
\<close>

definition isInteger :: "rat \<Rightarrow> bool" where
  "isInteger c = (of_int \<lfloor>c\<rfloor> = c)"

definition capacityValue :: "nat \<Rightarrow> jsval \<Rightarrow> bool" where
  "capacityValue n v =
     (\<not> truthy v \<or> (case v of JNum c \<Rightarrow> isInteger c \<and> of_nat n \<le> c | _ \<Rightarrow> False))"

fun admissible :: "request \<Rightarrow> event list \<Rightarrow> bool" where
  "admissible (CreateEvent usr b newId now1 now2) events = capacityValue 0 (b ''maxParticipants'')"
| "admissible (UpdateEventById i usr b now) events =
     (b ''maxParticipants'' = JUndefined \<or>
      (case findEventById i events of
         None \<Rightarrow> True
       | Some event \<Rightarrow> capacityValue (length (participants event)) (b ''maxParticipants'')))"
| "admissible (DeleteEventById i usr) events = True"
| "admissible (RegisterForEvent i usr now sendMail) events = True"

fun admissibleRun :: "(jsval \<Rightarrow> rat option) \<Rightarrow> request list \<Rightarrow> event list \<Rightarrow> bool" where
  "admissibleRun toNum [] events = True"
| "admissibleRun toNum (r # rs) events =
     (admissible r events \<and> admissibleRun toNum rs (snd (handle toNum r events)))"

text \<open>
  The condition the admissible runs maintain: every stored \<open>maxParticipants\<close> is a
  capacity value for the participants the event has.
\<close>

definition wholeCapacities :: "event list \<Rightarrow> bool" where
  "wholeCapacities events =
     list_all (\<lambda>event. capacityValue (length (participants event)) (maxParticipants event)) events"

text \<open>The three text fields of a patch are usable when each is falsy or a string.\<close>

definition textFields :: "body \<Rightarrow> bool" where
  "textFields b =
     list_all (\<lambda>k. truthy (b k) \<longrightarrow> typeof (b k) = ''string'')
       [''title'', ''description'', ''location'']"

section \<open>Concrete requests\<close>

text \<open>
  The callers, bodies and collaborators of the scenarios below: an organizer and two
  attendees, the event body of the test suite, a transporter that delivers and one that
  fails, and a conversion that reads no string as a number.
\<close>

definition noCoercion :: "jsval \<Rightarrow> rat option" where
  "noCoercion v = None"

definition mailDown :: "mailOptions \<Rightarrow> string + string" where
  "mailDown opts = Inl ''connect ECONNREFUSED''"

definition mailUp :: "mailOptions \<Rightarrow> string + string" where
  "mailUp opts = Inr ''<msg-1>''"

definition organizerO :: identity where
  "organizerO = \<lparr> id_r = ''o'', name_r = ''Organizer'', email_r = ''organizer@example.com'',
                  role_r = JStr ''organizer'' \<rparr>"

definition organizerP :: identity where
  "organizerP = \<lparr> id_r = ''p'', name_r = ''Other Org'', email_r = ''other-org@example.com'',
                  role_r = JStr ''organizer'' \<rparr>"

definition attendeeA1 :: identity where
  "attendeeA1 = \<lparr> id_r = ''a1'', name_r = ''Attendee'', email_r = ''attendee@example.com'',
                  role_r = JStr ''attendee'' \<rparr>"

definition attendeeA2 :: identity where
  "attendeeA2 = \<lparr> id_r = ''a2'', name_r = ''Second User'', email_r = ''second@example.com'',
                  role_r = JStr ''attendee'' \<rparr>"

definition eventBody :: "(string \<times> jsval) list" where
  "eventBody = [(''title'', JStr ''Test Event''), (''description'', JStr ''A test event''),
                (''date'', JStr ''2026-03-15''), (''time'', JStr ''10:00''),
                (''location'', JStr ''Virtual Room 1'')]"

text \<open>
  An event without a capacity fills with two participants, and its organizer then sets
  \<open>maxParticipants\<close> to 1.
\<close>

definition loweredCapacityRun :: "request list" where
  "loweredCapacityRun =
     [CreateEvent organizerO (obj eventBody) ''e'' ''t0'' ''t0'',
      RegisterForEvent ''e'' attendeeA1 ''t1'' mailUp,
      RegisterForEvent ''e'' attendeeA2 ''t2'' mailDown,
      UpdateEventById ''e'' organizerO (obj [(''maxParticipants'', JNum 1)]) ''t3'']"

text \<open>
  An event of capacity 1: the first attendee gets the place, the second is turned away, the
  organizer raises the capacity to 2 and the second attendee registers.
\<close>

definition capacityOneRun :: "request list" where
  "capacityOneRun =
     [CreateEvent organizerO (obj ((''maxParticipants'', JNum 1) # eventBody)) ''e'' ''t0'' ''t0'',
      RegisterForEvent ''e'' attendeeA1 ''t1'' mailUp,
      RegisterForEvent ''e'' attendeeA2 ''t2'' mailUp,
      UpdateEventById ''e'' organizerO (obj [(''maxParticipants'', JNum 2)]) ''t3'',
      RegisterForEvent ''e'' attendeeA2 ''t4'' mailDown]"

text \<open>Registrations for one event by a list of callers, each with its clock reading and
  transporter.\<close>

definition registrations ::
  "string \<Rightarrow> (identity \<times> string \<times> (mailOptions \<Rightarrow> string + string)) list \<Rightarrow> request list" where
  "registrations i callers =
     map (\<lambda>(usr, now, sendMail). RegisterForEvent i usr now sendMail) callers"

text \<open>
  A store event of capacity 1 whose place is taken by the first attendee, and the same
  event with the place free.
\<close>

definition seatTaken :: event where
  "seatTaken =
     \<lparr> id_e = ''e'', title = ''Limited Event'', description = ''A test event'',
       date = JStr ''2026-03-15'', time = JStr ''10:00'', location = ''Virtual Room 1'',
       maxParticipants = JNum 1, organizerId = ''o'',
       participants = [\<lparr> userId = ''a1'', name_p = ''Attendee'',
                         email_p = ''attendee@example.com'', registeredAt = ''t1'' \<rparr>],
       createdAt = ''t0'', updatedAt = ''t0'' \<rparr>"

definition seatFree :: event where
  "seatFree = seatTaken\<lparr> participants := [] \<rparr>"

text \<open>A body that only renames the event with the patch built from it at \<open>t5\<close>, the event
  body with \<open>maxParticipants\<close> 0, and two callers.\<close>

definition retitle :: "(string \<times> jsval) list" where
  "retitle = [(''title'', JStr ''Updated Event Title'')]"

definition renamed :: updatedData where
  "renamed =
     \<lparr> title_d = Some ''Updated Event Title'', description_d = None, date_d = None,
       time_d = None, location_d = None, maxParticipants_d = None, updatedAt_d = ''t5'' \<rparr>"

definition zeroCapacityBody :: "(string \<times> jsval) list" where
  "zeroCapacityBody = (''maxParticipants'', JNum 0) # eventBody"

definition twoCallers :: "(identity \<times> string \<times> (mailOptions \<Rightarrow> string + string)) list" where
  "twoCallers = [(attendeeA1, ''t1'', mailUp), (attendeeA2, ''t2'', mailDown)]"

text \<open>
  Sign-up bodies without a role, with the role \<open>admin\<close> and with an empty role; a hashing
  and a signing function that stand for the libraries, and a signing that throws.
\<close>

definition bcryptStub :: "jsval \<Rightarrow> js_error + string" where
  "bcryptStub v = (case v of JStr s \<Rightarrow> Inr (''$2b$10$'' @ s) | _ \<Rightarrow> Inl TypeError)"

definition signStub :: "string \<Rightarrow> string \<Rightarrow> jsval \<Rightarrow> js_error + string" where
  "signStub i email role = Inr (''token-'' @ i)"

definition signDown :: "string \<Rightarrow> string \<Rightarrow> jsval \<Rightarrow> js_error + string" where
  "signDown i email role = Inl (LibraryError ''secretOrPrivateKey must have a value'')"

definition signup :: "string \<Rightarrow> (string \<times> jsval) list" where
  "signup email = [(''name'', JStr ''Test User''), (''email'', JStr email),
                   (''password'', JStr ''password123'')]"

definition adminSignup :: "(string \<times> jsval) list" where
  "adminSignup = (''role'', JStr ''admin'') # signup ''test@example.com''"

definition emptyRoleSignup :: "(string \<times> jsval) list" where
  "emptyRoleSignup = (''role'', JStr '''') # signup ''test@example.com''"

text \<open>Patches with an empty title, a title of one space, a number as title, and
  \<open>maxParticipants\<close> 0.\<close>

definition emptyTitle :: "(string \<times> jsval) list" where
  "emptyTitle = [(''title'', JStr '''')]"


definition numericTitle :: "(string \<times> jsval) list" where
  "numericTitle = [(''title'', JNum 5)]"

definition zeroCapacity :: "(string \<times> jsval) list" where
  "zeroCapacity = [(''maxParticipants'', JNum 0)]"

section \<open>The store lookups\<close>

lemma find_Some_findIndex:
  "find P xs = Some x \<Longrightarrow> \<exists>k. findIndex P xs = Some k \<and> k < length xs \<and> xs ! k = x"
  by (induction xs) auto

lemma findIndex_Some:
  "findIndex P xs = Some k \<Longrightarrow> k < length xs \<and> P (xs ! k) \<and> find P xs = Some (xs ! k)"
proof (induction xs arbitrary: k)
  case Nil
  then show ?case by simp
next
  case (Cons x xs)
  then show ?case by (auto split: if_splits)
qed

lemma find_update_first:
  "findIndex P xs = Some k \<Longrightarrow> P y \<Longrightarrow> find P (xs[k := y]) = Some y"
proof (induction xs arbitrary: k)
  case Nil
  then show ?case by simp
next
  case (Cons x xs)
  then show ?case by (auto split: if_splits)
qed

lemma findEventById_index:
  assumes "findEventById i events = Some event"
  obtains k where "findIndex (\<lambda>event. id_e event = i) events = Some k"
    and "k < length events" and "events ! k = event" and "id_e event = i"
proof -
  from assms obtain k where k: "findIndex (\<lambda>event. id_e event = i) events = Some k"
      "k < length events" "events ! k = event"
    unfolding findEventById_def using find_Some_findIndex by fastforce
  from findIndex_Some[OF k(1)] k(3) have "id_e event = i" by simp
  with k that show thesis by blast
qed

section \<open>The capacity invariant under sequential runs\<close>

lemma isInteger_step:
  assumes "isInteger c" and "of_nat n < c"
  shows "of_nat (Suc n) \<le> c"
proof -
  from assms(1) have c: "of_int \<lfloor>c\<rfloor> = c" unfolding isInteger_def .
  from assms(2) have "(of_int (int n) :: rat) < of_int \<lfloor>c\<rfloor>" by (simp only: c of_int_of_nat_eq)
  then have "int n < \<lfloor>c\<rfloor>" by (simp only: of_int_less_iff)
  then have "int (Suc n) \<le> \<lfloor>c\<rfloor>" by simp
  then have "(of_int (int (Suc n)) :: rat) \<le> of_int \<lfloor>c\<rfloor>" by (simp only: of_int_le_iff)
  then show ?thesis by (simp only: c of_int_of_nat_eq)
qed

lemma capacityValue_bound:
  assumes "capacityValue (length (participants event)) (maxParticipants event)"
    and "capacity toNum event = Some c"
  shows "of_nat (length (participants event)) \<le> c"
proof (cases "maxParticipants event")
  case (JNum x)
  with assms show ?thesis by (auto simp: capacityValue_def capacity_def split: if_splits)
qed (use assms in \<open>auto simp: capacityValue_def capacity_def split: if_splits\<close>)

lemma wholeCapacities_invariant:
  "wholeCapacities events \<Longrightarrow> capacityInvariant toNum events"
  unfolding wholeCapacities_def capacityInvariant_def list_all_iff
  by (auto split: option.splits dest: capacityValue_bound)

lemma capacityValue_push:
  assumes "capacityValue (length (participants event)) (maxParticipants event)"
    and "\<not> full toNum event"
  shows "capacityValue (length (participants event @ [p])) (maxParticipants event)"
proof (cases "truthy (maxParticipants event)")
  case False
  then show ?thesis by (simp add: capacityValue_def)
next
  case True
  with assms(1) obtain c where c: "maxParticipants event = JNum c" "isInteger c"
    by (auto simp: capacityValue_def split: jsval.splits)
  from assms(2) True c have "of_nat (length (participants event)) < c"
    by (simp add: full_def js_ge_def)
  from isInteger_step[OF c(2) this] c show ?thesis
    by (simp add: capacityValue_def)
qed

lemma createEvent_wholeCapacities:
  assumes "wholeCapacities events" and "capacityValue 0 (b ''maxParticipants'')"
  shows "wholeCapacities (snd (createEvent usr b newId now1 now2 events))"
proof -
  have "capacityValue 0 (js_or (b ''maxParticipants'') JNull)"
    using assms(2) by (simp add: js_or_def capacityValue_def)
  with assms(1) show ?thesis
    by (auto simp: createEvent_def Let_def addEvent_def wholeCapacities_def
             split: sum.splits)
qed

lemma buildUpdatedData_maxParticipants:
  "buildUpdatedData b now = Inr d \<Longrightarrow>
     maxParticipants_d d =
       (if b ''maxParticipants'' \<noteq> JUndefined then Some (b ''maxParticipants'') else None)"
  by (auto simp: buildUpdatedData_def split: sum.splits)

lemma updateEventById_wholeCapacities:
  assumes "wholeCapacities events" and "admissible (UpdateEventById i usr b now) events"
  shows "wholeCapacities (snd (updateEventById i usr b now events))"
proof (cases "findEventById i events")
  case None
  with assms(1) show ?thesis by (simp add: updateEventById_def)
next
  case (Some event)
  then obtain k where k: "findIndex (\<lambda>event. id_e event = i) events = Some k"
      "k < length events" "events ! k = event"
    by (rule findEventById_index)
  from assms(1) k have ev: "capacityValue (length (participants event)) (maxParticipants event)"
    by (auto simp: wholeCapacities_def list_all_length)
  have upd: "wholeCapacities (events[k := merge event d])" if d: "buildUpdatedData b now = Inr d" for d
  proof -
    have "capacityValue (length (participants (merge event d))) (maxParticipants (merge event d))"
      using assms(2) Some ev buildUpdatedData_maxParticipants[OF d]
      by (auto simp: merge_def)
    with assms(1) show ?thesis
      unfolding wholeCapacities_def list_all_iff
      using set_update_subset_insert[of events k "merge event d"] by auto
  qed
  show ?thesis
    using assms(1) Some k upd
    by (auto simp: updateEventById_def updateEvent_def Let_def split: sum.splits)
qed

lemma deleteEventById_wholeCapacities:
  assumes "wholeCapacities events"
  shows "wholeCapacities (snd (deleteEventById i usr events))"
proof -
  have "wholeCapacities (take k events @ drop (Suc k) events)" for k
    using assms unfolding wholeCapacities_def list_all_iff
    by (auto dest: in_set_takeD in_set_dropD)
  with assms show ?thesis
    by (auto simp: deleteEventById_def deleteEvent_def split: option.splits)
qed

lemma registerForEvent_wholeCapacities:
  assumes "wholeCapacities events"
  shows "wholeCapacities (snd (registerForEvent toNum sendMail i usr now events))"
proof (cases "findEventById i events")
  case None
  with assms show ?thesis by (simp add: registerForEvent_def)
next
  case (Some event)
  then obtain k where k: "findIndex (\<lambda>event. id_e event = i) events = Some k"
      "k < length events" "events ! k = event"
    by (rule findEventById_index)
  from assms k have ev: "capacityValue (length (participants event)) (maxParticipants event)"
    by (auto simp: wholeCapacities_def list_all_length)
  have "wholeCapacities (events[k := event\<lparr>participants := participants event @ [p]\<rparr>])"
    if "\<not> full toNum event" for p
  proof -
    from capacityValue_push[OF ev that, of p]
    have "capacityValue (length (participants (event\<lparr>participants := participants event @ [p]\<rparr>)))
            (maxParticipants (event\<lparr>participants := participants event @ [p]\<rparr>))"
      by simp
    with assms show ?thesis
      unfolding wholeCapacities_def list_all_iff
      using set_update_subset_insert[of events k] by blast
  qed
  with assms Some k show ?thesis
    by (auto simp: registerForEvent_def pushParticipant_def Let_def)
qed

lemma handle_wholeCapacities:
  "wholeCapacities events \<Longrightarrow> admissible r events \<Longrightarrow>
     wholeCapacities (snd (handle toNum r events))"
proof (cases r)
  case (CreateEvent usr b newId now1 now2)
  assume "wholeCapacities events" "admissible r events"
  with CreateEvent show ?thesis by (simp add: createEvent_wholeCapacities)
next
  case (UpdateEventById i usr b now)
  assume "wholeCapacities events" "admissible r events"
  with UpdateEventById show ?thesis using updateEventById_wholeCapacities by simp
next
  case (DeleteEventById i usr)
  assume "wholeCapacities events" "admissible r events"
  with DeleteEventById show ?thesis by (simp add: deleteEventById_wholeCapacities)
next
  case (RegisterForEvent i usr now sendMail)
  assume "wholeCapacities events" "admissible r events"
  with RegisterForEvent registerForEvent_wholeCapacities[of events toNum sendMail i usr now]
  show ?thesis by (simp add: case_prod_beta)
qed

lemma snd_run_Cons:
  "snd (run toNum (r # rs) events) = snd (run toNum rs (snd (handle toNum r events)))"
  by (simp add: case_prod_beta)

lemma run_wholeCapacities:
  "wholeCapacities events \<Longrightarrow> admissibleRun toNum rs events \<Longrightarrow>
     wholeCapacities (snd (run toNum rs events))"
proof (induction rs arbitrary: events)
  case Nil
  then show ?case by simp
next
  case (Cons r rs)
  from Cons.prems have "wholeCapacities (snd (handle toNum r events))"
    by (simp add: handle_wholeCapacities)
  moreover from Cons.prems have "admissibleRun toNum rs (snd (handle toNum r events))" by simp
  ultimately have "wholeCapacities (snd (run toNum rs (snd (handle toNum r events))))"
    by (rule Cons.IH)
  then show ?case by (simp only: snd_run_Cons)
qed

text \<open>
  C1 (amended). In every store state reached from the empty store by a sequential run of
  createEvent, updateEventById, deleteEventById and registerForEvent requests in which
  every createEvent carries a \<open>maxParticipants\<close> that is absent, falsy or a whole number
  not below 0, and every updateEventById one that is absent, falsy or a whole number not
  below the current participant count of the event it addresses, each event whose capacity
  is set has at most that many participants. deleteEventById and registerForEvent are not
  restricted.
\<close>

theorem admissible_runs_keep_capacity:
  "admissibleRun toNum rs [] \<Longrightarrow> capacityInvariant toNum (snd (run toNum rs []))"
proof -
  assume "admissibleRun toNum rs []"
  moreover have "wholeCapacities []" by (simp add: wholeCapacities_def)
  ultimately have "wholeCapacities (snd (run toNum rs []))"
    using run_wholeCapacities by blast
  then show ?thesis by (rule wholeCapacities_invariant)
qed

text \<open>The run with an event of capacity 1 is admissible and ends within capacity.\<close>

theorem admissible_runs_keep_capacity_witness:
  "admissibleRun noCoercion capacityOneRun [] \<and>
   capacityInvariant noCoercion (snd (run noCoercion capacityOneRun []))"
proof -
  have h: "admissibleRun noCoercion capacityOneRun []" by code_simp
  from admissible_runs_keep_capacity[OF h] h show ?thesis by simp
qed

text \<open>
  The claim as stated fails: after the organizer lowers \<open>maxParticipants\<close> to 1 the stored
  event has capacity 1 and two participants.
\<close>

theorem lowered_capacity_counterexample:
  "\<not> capacityInvariant noCoercion (snd (run noCoercion loweredCapacityRun []))"
  by code_simp

section \<open>Registration: the order of the checks\<close>


lemma alreadyRegistered_None_iff:
  "alreadyRegistered event usr = None \<longleftrightarrow> (\<forall>p\<in>set (participants event). userId p \<noteq> id_r usr)"
  by (auto simp: alreadyRegistered_def find_None_iff)

lemma registerForEvent_missing:
  "findEventById i events = None \<Longrightarrow>
     registerForEvent toNum sendMail i usr now events =
       ((Res 404 (Error ''Event not found''), []), events)"
  by (simp add: registerForEvent_def)

lemma registerForEvent_duplicate:
  "findEventById i events = Some event \<Longrightarrow>
   \<exists>p\<in>set (participants event). userId p = id_r usr \<Longrightarrow>
     registerForEvent toNum sendMail i usr now events =
       ((Res 409 (Error ''You are already registered for this event''), []), events)"
  using alreadyRegistered_None_iff[of event usr] by (auto simp: registerForEvent_def)

lemma registerForEvent_full:
  "findEventById i events = Some event \<Longrightarrow>
   \<forall>p\<in>set (participants event). userId p \<noteq> id_r usr \<Longrightarrow> full toNum event \<Longrightarrow>
     registerForEvent toNum sendMail i usr now events =
       ((Res 400 (Error ''Event has reached maximum number of participants''), []), events)"
  using alreadyRegistered_None_iff[of event usr] by (auto simp: registerForEvent_def)

lemma registerForEvent_success:
  "findEventById i events = Some event \<Longrightarrow>
   \<forall>p\<in>set (participants event). userId p \<noteq> id_r usr \<Longrightarrow> \<not> full toNum event \<Longrightarrow>
     registerForEvent toNum sendMail i usr now events =
       ((Res 200 (MessageView ''Successfully registered for the event''
            \<lparr> id_v = id_e event, title_v = title event, date_v = date event,
              time_v = time event \<rparr>),
         snd (sendRegistrationEmail sendMail (email_r usr) (name_r usr) (title event))),
        pushParticipant i
          \<lparr> userId = id_r usr, name_p = name_r usr, email_p = email_r usr, registeredAt = now \<rparr>
          events)"
  using alreadyRegistered_None_iff[of event usr] by (auto simp: registerForEvent_def Let_def)

lemma findEventById_pushParticipant:
  assumes "findEventById i events = Some event"
  shows "findEventById i (pushParticipant i p events) =
           Some (event\<lparr> participants := participants event @ [p] \<rparr>)"
proof -
  from assms obtain k where k: "findIndex (\<lambda>event. id_e event = i) events = Some k"
      "k < length events" "events ! k = event" "id_e event = i"
    by (rule findEventById_index)
  then show ?thesis
    unfolding findEventById_def pushParticipant_def
    by (simp add: find_update_first)
qed



section \<open>Ownership\<close>

text \<open>
  C4. For every existing event and every caller whose identifier differs from the event's
  \<open>organizerId\<close>, updateEventById and deleteEventById answer 403 and leave the store as
  it was, also behind the role gate of the routes. For the caller whose identifier is the
  owner's the operation proceeds: the deletion answers 200 and removes an event, the update
  answers 200 with the merged event whenever the patch can be built, and with the organizer
  role the routes pass the request on to the controllers.
\<close>

theorem only_the_owner_updates_or_deletes:
  assumes "findEventById i events = Some event"
  shows "(id_r usr \<noteq> organizerId event \<longrightarrow>
            updateEventById i usr b now events =
              (Res 403 (Error ''Access denied. Only the event organizer can update this event.''),
               events)
          \<and> deleteEventById i usr events =
              (Res 403 (Error ''Access denied. Only the event organizer can delete this event.''),
               events)
          \<and> status (fst (route_put i usr b now events)) = Some 403
          \<and> snd (route_put i usr b now events) = events
          \<and> status (fst (route_delete i usr events)) = Some 403
          \<and> snd (route_delete i usr events) = events)
       \<and> (id_r usr = organizerId event \<longrightarrow>
            deleteEventById i usr events =
              (Res 200 (Message ''Event deleted successfully''), snd (deleteEvent i events))
          \<and> (\<exists>k<length events. events ! k = event
                \<and> snd (deleteEvent i events) = take k events @ drop (Suc k) events)
          \<and> status (fst (updateEventById i usr b now events)) \<noteq> Some 403
          \<and> status (fst (updateEventById i usr b now events)) \<noteq> Some 404
          \<and> (\<forall>d. buildUpdatedData b now = Inr d \<longrightarrow>
                updateEventById i usr b now events =
                  (Res 200 (MessageEvent ''Event updated successfully'' (Some (merge event d))),
                   snd (updateEvent i d events))
                \<and> findEventById i (snd (updateEvent i d events)) = Some (merge event d))
          \<and> (role_r usr = JStr ''organizer'' \<longrightarrow>
                route_put i usr b now events = updateEventById i usr b now events
              \<and> route_delete i usr events = deleteEventById i usr events))"
proof -
  from assms obtain k where k: "findIndex (\<lambda>event. id_e event = i) events = Some k"
      "k < length events" "events ! k = event" "id_e event = i"
    by (rule findEventById_index)
  have del: "\<exists>k<length events. events ! k = event
                \<and> snd (deleteEvent i events) = take k events @ drop (Suc k) events"
    using k by (auto simp: deleteEvent_def)
  have upd: "updateEvent i d events = (Some (merge event d), events[k := merge event d])" for d
    using k by (simp add: updateEvent_def Let_def)
  have found: "findEventById i (events[k := merge event d]) = Some (merge event d)" for d
    unfolding findEventById_def using k by (simp add: find_update_first merge_def)
  show ?thesis
    using assms del upd found
    by (auto simp: updateEventById_def deleteEventById_def route_put_def route_delete_def
                   authorize_def split: sum.splits)
qed

text \<open>Another organizer is refused, the owner is not.\<close>

theorem only_the_owner_updates_or_deletes_witness:
  "findEventById ''e'' [seatTaken] = Some seatTaken
   \<and> id_r organizerP \<noteq> organizerId seatTaken
   \<and> updateEventById ''e'' organizerP (obj retitle) ''t5'' [seatTaken] =
       (Res 403 (Error ''Access denied. Only the event organizer can update this event.''),
        [seatTaken])
   \<and> deleteEventById ''e'' organizerP [seatTaken] =
       (Res 403 (Error ''Access denied. Only the event organizer can delete this event.''),
        [seatTaken])
   \<and> id_r organizerO = organizerId seatTaken
   \<and> deleteEventById ''e'' organizerO [seatTaken] =
       (Res 200 (Message ''Event deleted successfully''), snd (deleteEvent ''e'' [seatTaken]))
   \<and> snd (deleteEvent ''e'' [seatTaken]) = []
   \<and> buildUpdatedData (obj retitle) ''t5'' = Inr renamed
   \<and> updateEventById ''e'' organizerO (obj retitle) ''t5'' [seatTaken] =
       (Res 200 (MessageEvent ''Event updated successfully'' (Some (merge seatTaken renamed))),
        snd (updateEvent ''e'' renamed [seatTaken]))
   \<and> role_r organizerO = JStr ''organizer''
   \<and> route_put ''e'' organizerO (obj retitle) ''t5'' [seatTaken] =
       updateEventById ''e'' organizerO (obj retitle) ''t5'' [seatTaken]"
proof -
  have a: "findEventById ''e'' [seatTaken] = Some seatTaken"
    by (simp add: findEventById_def seatTaken_def)
  have b: "id_r organizerP \<noteq> organizerId seatTaken"
    by (simp add: organizerP_def seatTaken_def)
  have c: "id_r organizerO = organizerId seatTaken"
    by (simp add: organizerO_def seatTaken_def)
  have d: "role_r organizerO = JStr ''organizer''"
    by (simp add: organizerO_def)
  from only_the_owner_updates_or_deletes[OF a, where usr=organizerP and b="obj retitle"
         and now="''t5''"] b
  have r1: "updateEventById ''e'' organizerP (obj retitle) ''t5'' [seatTaken] =
       (Res 403 (Error ''Access denied. Only the event organizer can update this event.''),
        [seatTaken])"
    "deleteEventById ''e'' organizerP [seatTaken] =
       (Res 403 (Error ''Access denied. Only the event organizer can delete this event.''),
        [seatTaken])"
    by blast+
  from only_the_owner_updates_or_deletes[OF a, where usr=organizerO and b="obj retitle"
         and now="''t5''"] c d
  have r2: "deleteEventById ''e'' organizerO [seatTaken] =
       (Res 200 (Message ''Event deleted successfully''), snd (deleteEvent ''e'' [seatTaken]))"
    "route_put ''e'' organizerO (obj retitle) ''t5'' [seatTaken] =
       updateEventById ''e'' organizerO (obj retitle) ''t5'' [seatTaken]"
    by blast+
  have e: "snd (deleteEvent ''e'' [seatTaken]) = []" by code_simp
  have f: "buildUpdatedData (obj retitle) ''t5'' = Inr renamed" by code_simp
  from only_the_owner_updates_or_deletes[OF a, where usr=organizerO and b="obj retitle"
         and now="''t5''"] c f
  have r3: "updateEventById ''e'' organizerO (obj retitle) ''t5'' [seatTaken] =
       (Res 200 (MessageEvent ''Event updated successfully'' (Some (merge seatTaken renamed))),
        snd (updateEvent ''e'' renamed [seatTaken]))"
    by blast
  from a b c d e f r1 r2 r3 show ?thesis by blast
qed

section \<open>Failed registrations\<close>

text \<open>
  C6. A registration that does not answer 200 (not found, conflict, capacity exceeded)
  leaves the event store as it was. After a successful registration a second attempt by the
  same user for the same event answers 409 and changes nothing, and the event holds exactly
  one participant with that user identifier. A registration against a full event answers
  400 and the event is found unchanged.
\<close>

theorem failed_registration_leaves_store:
  "(status (fst (fst (registerForEvent toNum sendMail i usr now events))) \<noteq> Some 200 \<longrightarrow>
      snd (registerForEvent toNum sendMail i usr now events) = events)
   \<and> (status (fst (fst (registerForEvent toNum sendMail i usr now events))) = Some 200 \<longrightarrow>
        fst (fst (registerForEvent toNum sendMail' i usr now'
                    (snd (registerForEvent toNum sendMail i usr now events)))) =
          Res 409 (Error ''You are already registered for this event'')
      \<and> snd (registerForEvent toNum sendMail' i usr now'
                (snd (registerForEvent toNum sendMail i usr now events))) =
          snd (registerForEvent toNum sendMail i usr now events)
      \<and> (\<exists>event. findEventById i (snd (registerForEvent toNum sendMail i usr now events)) =
                     Some event
                 \<and> length (filter (\<lambda>p. userId p = id_r usr) (participants event)) = 1))
   \<and> (\<forall>event. findEventById i events = Some event
          \<and> (\<forall>p\<in>set (participants event). userId p \<noteq> id_r usr)
          \<and> full toNum event \<longrightarrow>
        fst (fst (registerForEvent toNum sendMail i usr now events)) =
          Res 400 (Error ''Event has reached maximum number of participants'')
      \<and> findEventById i (snd (registerForEvent toNum sendMail i usr now events)) = Some event)"
proof (cases "findEventById i events")
  case None
  then show ?thesis by (simp add: registerForEvent_missing)
next
  case (Some event)
  show ?thesis
  proof (cases "\<exists>p\<in>set (participants event). userId p = id_r usr")
    case True
    with Some show ?thesis by (auto simp: registerForEvent_duplicate)
  next
    case False
    then have no: "\<forall>p\<in>set (participants event). userId p \<noteq> id_r usr" by simp
    show ?thesis
    proof (cases "full toNum event")
      case True
      from registerForEvent_full[OF Some no True] Some show ?thesis by simp
    next
      case False
      let ?p = "\<lparr> userId = id_r usr, name_p = name_r usr, email_p = email_r usr,
                   registeredAt = now \<rparr>"
      let ?event' = "event\<lparr> participants := participants event @ [?p] \<rparr>"
      have found: "findEventById i (pushParticipant i ?p events) = Some ?event'"
        using Some by (rule findEventById_pushParticipant)
      have dup: "\<exists>p\<in>set (participants ?event'). userId p = id_r usr" by simp
      have one: "length (filter (\<lambda>p. userId p = id_r usr) (participants ?event')) = 1"
        using no by (simp add: filter_empty_conv)
      from registerForEvent_success[OF Some no False]
        registerForEvent_duplicate[OF found dup] found one Some False
      show ?thesis by simp
    qed
  qed
qed

text \<open>The full event turns the second attendee away; the first attendee registers once.\<close>

theorem failed_registration_leaves_store_witness:
  "status (fst (fst (registerForEvent noCoercion mailUp ''e'' attendeeA2 ''t2'' [seatTaken]))) \<noteq>
     Some 200
   \<and> snd (registerForEvent noCoercion mailUp ''e'' attendeeA2 ''t2'' [seatTaken]) = [seatTaken]
   \<and> status (fst (fst (registerForEvent noCoercion mailUp ''e'' attendeeA1 ''t1'' [seatFree]))) =
       Some 200
   \<and> fst (fst (registerForEvent noCoercion mailDown ''e'' attendeeA1 ''t2''
                  (snd (registerForEvent noCoercion mailUp ''e'' attendeeA1 ''t1'' [seatFree])))) =
       Res 409 (Error ''You are already registered for this event'')
   \<and> snd (registerForEvent noCoercion mailDown ''e'' attendeeA1 ''t2''
             (snd (registerForEvent noCoercion mailUp ''e'' attendeeA1 ''t1'' [seatFree]))) =
       snd (registerForEvent noCoercion mailUp ''e'' attendeeA1 ''t1'' [seatFree])
   \<and> findEventById ''e'' [seatTaken] = Some seatTaken
   \<and> \<not> (\<exists>p\<in>set (participants seatTaken). userId p = id_r attendeeA2)
   \<and> full noCoercion seatTaken
   \<and> fst (fst (registerForEvent noCoercion mailUp ''e'' attendeeA2 ''t2'' [seatTaken])) =
       Res 400 (Error ''Event has reached maximum number of participants'')
   \<and> findEventById ''e'' (snd (registerForEvent noCoercion mailUp ''e'' attendeeA2 ''t2''
                                  [seatTaken])) = Some seatTaken"
proof -
  have a: "status (fst (fst (registerForEvent noCoercion mailUp ''e'' attendeeA2 ''t2''
                               [seatTaken]))) \<noteq> Some 200"
    by code_simp
  have b: "status (fst (fst (registerForEvent noCoercion mailUp ''e'' attendeeA1 ''t1''
                               [seatFree]))) = Some 200"
    by code_simp
  from failed_registration_leaves_store[where toNum=noCoercion and sendMail=mailUp
         and i="''e''" and usr=attendeeA2 and now="''t2''" and events="[seatTaken]"] a
  have r1: "snd (registerForEvent noCoercion mailUp ''e'' attendeeA2 ''t2'' [seatTaken]) =
              [seatTaken]" by blast
  from failed_registration_leaves_store[where toNum=noCoercion and sendMail=mailUp
         and i="''e''" and usr=attendeeA1 and now="''t1''" and events="[seatFree]"
         and sendMail'=mailDown and now'="''t2''"] b
  have r2: "fst (fst (registerForEvent noCoercion mailDown ''e'' attendeeA1 ''t2''
                  (snd (registerForEvent noCoercion mailUp ''e'' attendeeA1 ''t1'' [seatFree])))) =
       Res 409 (Error ''You are already registered for this event'')"
    "snd (registerForEvent noCoercion mailDown ''e'' attendeeA1 ''t2''
             (snd (registerForEvent noCoercion mailUp ''e'' attendeeA1 ''t1'' [seatFree]))) =
       snd (registerForEvent noCoercion mailUp ''e'' attendeeA1 ''t1'' [seatFree])"
    by blast+
  have c: "findEventById ''e'' [seatTaken] = Some seatTaken"
    by (simp add: findEventById_def seatTaken_def)
  have d: "\<forall>p\<in>set (participants seatTaken). userId p \<noteq> id_r attendeeA2"
    by (simp add: seatTaken_def attendeeA2_def)
  have e: "full noCoercion seatTaken"
    by (simp add: full_def js_ge_def seatTaken_def)
  from failed_registration_leaves_store[where toNum=noCoercion and sendMail=mailUp
         and i="''e''" and usr=attendeeA2 and now="''t2''" and events="[seatTaken]"] c d e
  have r3: "fst (fst (registerForEvent noCoercion mailUp ''e'' attendeeA2 ''t2'' [seatTaken])) =
       Res 400 (Error ''Event has reached maximum number of participants'')"
    "findEventById ''e'' (snd (registerForEvent noCoercion mailUp ''e'' attendeeA2 ''t2''
                                  [seatTaken])) = Some seatTaken"
    by blast+
  from d have d': "\<not> (\<exists>p\<in>set (participants seatTaken). userId p = id_r attendeeA2)"
    by simp
  from a b c d' e r1 r2 r3 show ?thesis by blast
qed

section \<open>The notification\<close>

text \<open>
  C7. For every registration request, the response and the store that registerForEvent
  leaves are the same for any two transporters, one that delivers the message and one that
  fails: the outcome of the notification reaches neither the caller nor the participant
  list.
\<close>

theorem notification_outcome_never_surfaces:
  "fst (fst (registerForEvent toNum sendMail1 i usr now events)) =
     fst (fst (registerForEvent toNum sendMail2 i usr now events))
   \<and> snd (registerForEvent toNum sendMail1 i usr now events) =
       snd (registerForEvent toNum sendMail2 i usr now events)"
  by (simp add: registerForEvent_def Let_def split: option.splits)

text \<open>The same registration with a transporter that delivers and one that fails.\<close>

theorem notification_outcome_never_surfaces_witness:
  "fst (fst (registerForEvent noCoercion mailUp ''e'' attendeeA2 ''t2'' [seatFree])) =
     fst (fst (registerForEvent noCoercion mailDown ''e'' attendeeA2 ''t2'' [seatFree]))
   \<and> snd (registerForEvent noCoercion mailUp ''e'' attendeeA2 ''t2'' [seatFree]) =
       snd (registerForEvent noCoercion mailDown ''e'' attendeeA2 ''t2'' [seatFree])"
  by (rule notification_outcome_never_surfaces)

text \<open>The outcome of the notification is visible in the console output only.\<close>

lemma notification_outcome_is_logged:
  "snd (fst (registerForEvent noCoercion mailUp ''e'' attendeeA2 ''t2'' [seatFree])) \<noteq>
   snd (fst (registerForEvent noCoercion mailDown ''e'' attendeeA2 ''t2'' [seatFree]))"
  by code_simp

section \<open>An event created without a capacity\<close>

lemma validateEvent_strings:
  assumes "validateEvent ttl dsc dt tm loc = []"
  shows "\<exists>s1 s2 s3. ttl = JStr s1 \<and> dsc = JStr s2 \<and> loc = JStr s3"
proof -
  have str: "\<exists>s. v = JStr s" if "\<not> blank v" for v
    using that by (cases v) (auto simp: blank_def)
  from assms have nb: "\<not> blank ttl" "\<not> blank dsc" "\<not> blank loc"
    by (auto simp: validateEvent_def required_def split: if_splits)
  from str[OF nb(1)] obtain s1 where "ttl = JStr s1" ..
  moreover from str[OF nb(2)] obtain s2 where "dsc = JStr s2" ..
  moreover from str[OF nb(3)] obtain s3 where "loc = JStr s3" ..
  ultimately show ?thesis by simp
qed

lemma createEvent_valid:
  assumes "validateEvent (b ''title'') (b ''description'') (b ''date'') (b ''time'')
             (b ''location'') = []"
  shows "\<exists>event. createEvent usr b newId now1 now2 events =
             (Res 201 (MessageEvent ''Event created successfully'' (Some event)),
              events @ [event])
           \<and> id_e event = newId \<and> participants event = [] \<and> organizerId event = id_r usr
           \<and> maxParticipants event = js_or (b ''maxParticipants'') JNull"
proof -
  from validateEvent_strings[OF assms] obtain s1 s2 s3 where
    "b ''title'' = JStr s1" "b ''description'' = JStr s2" "b ''location'' = JStr s3" by blast
  with assms show ?thesis
    by (simp add: createEvent_def Let_def addEvent_def)
qed

lemma find_append_fresh:
  "find P xs = None \<Longrightarrow> P y \<Longrightarrow> find P (xs @ [y]) = Some y"
  by (induction xs) (auto split: if_splits)

lemma registrations_succeed:
  assumes "findEventById i evs = Some ev" and "\<not> truthy (maxParticipants ev)"
    and "distinct (map (\<lambda>c. id_r (fst c)) callers)"
    and "\<forall>c\<in>set callers. \<forall>p\<in>set (participants ev). userId p \<noteq> id_r (fst c)"
  shows "list_all (\<lambda>r. status r = Some 200) (fst (run toNum (registrations i callers) evs))
         \<and> (\<exists>ev'. findEventById i (snd (run toNum (registrations i callers) evs)) = Some ev'
                 \<and> length (participants ev') = length (participants ev) + length callers)"
  using assms
proof (induction callers arbitrary: evs ev)
  case Nil
  then show ?case by (simp add: registrations_def)
next
  case (Cons c callers)
  obtain usr now sendMail where c: "c = (usr, now, sendMail)" by (cases c) auto
  let ?p = "\<lparr> userId = id_r usr, name_p = name_r usr, email_p = email_r usr,
               registeredAt = now \<rparr>"
  let ?ev' = "ev\<lparr> participants := participants ev @ [?p] \<rparr>"
  let ?evs' = "pushParticipant i ?p evs"
  from Cons.prems(4) c have no: "\<forall>p\<in>set (participants ev). userId p \<noteq> id_r usr" by simp
  from Cons.prems(2) have nf: "\<not> full toNum ev" by (simp add: full_def)
  note step = registerForEvent_success[OF Cons.prems(1) no nf, of sendMail now]
  have found: "findEventById i ?evs' = Some ?ev'"
    using Cons.prems(1) by (rule findEventById_pushParticipant)
  have falsy: "\<not> truthy (maxParticipants ?ev')" using Cons.prems(2) by simp
  have dist: "distinct (map (\<lambda>c. id_r (fst c)) callers)" using Cons.prems(3) by simp
  have others: "\<forall>c\<in>set callers. \<forall>p\<in>set (participants ?ev'). userId p \<noteq> id_r (fst c)"
    using Cons.prems(3,4) c by auto
  from Cons.IH[OF found falsy dist others]
  have IH: "list_all (\<lambda>r. status r = Some 200) (fst (run toNum (registrations i callers) ?evs'))"
    "\<exists>ev'. findEventById i (snd (run toNum (registrations i callers) ?evs')) = Some ev'
          \<and> length (participants ev') = length (participants ?ev') + length callers"
    by blast+
  have run: "run toNum (registrations i (c # callers)) evs =
               (Res 200 (MessageView ''Successfully registered for the event''
                  \<lparr> id_v = id_e ev, title_v = title ev, date_v = date ev, time_v = time ev \<rparr>)
                # fst (run toNum (registrations i callers) ?evs'),
                snd (run toNum (registrations i callers) ?evs'))"
    using step c by (simp add: registrations_def case_prod_beta)
  from IH show ?case unfolding run by auto
qed

text \<open>
  C9. For every createEvent request that passes validation and whose \<open>maxParticipants\<close> is
  0 or another falsy value, the stored event has \<open>maxParticipants\<close> null, and every
  registration that follows by callers with pairwise different identifiers answers 200,
  whatever the participant count has grown to: the event ends with one participant per
  caller. The identifier of the new event is fresh.
\<close>

theorem falsy_maxParticipants_is_unlimited:
  assumes "\<not> truthy (b ''maxParticipants'')"
    and "validateEvent (b ''title'') (b ''description'') (b ''date'') (b ''time'')
           (b ''location'') = []"
    and "findEventById newId events = None"
    and "distinct (map (\<lambda>c. id_r (fst c)) callers)"
  shows "\<exists>event.
           createEvent usr b newId now1 now2 events =
             (Res 201 (MessageEvent ''Event created successfully'' (Some event)),
              events @ [event])
         \<and> maxParticipants event = JNull
         \<and> list_all (\<lambda>r. status r = Some 200)
             (fst (run toNum (registrations newId callers) (events @ [event])))
         \<and> (\<exists>event'. findEventById newId
                         (snd (run toNum (registrations newId callers) (events @ [event]))) =
                       Some event'
                    \<and> length (participants event') = length callers)"
proof -
  from createEvent_valid[OF assms(2), of usr newId now1 now2 events] obtain event where
    ev: "createEvent usr b newId now1 now2 events =
           (Res 201 (MessageEvent ''Event created successfully'' (Some event)), events @ [event])"
      "id_e event = newId" "participants event = []"
      "maxParticipants event = js_or (b ''maxParticipants'') JNull"
    by blast
  from ev(4) assms(1) have null: "maxParticipants event = JNull" by (simp add: js_or_def)
  have found: "findEventById newId (events @ [event]) = Some event"
    using assms(3) ev(2) unfolding findEventById_def by (simp add: find_append_fresh)
  have falsy: "\<not> truthy (maxParticipants event)" using null by simp
  have none: "\<forall>c\<in>set callers. \<forall>p\<in>set (participants event). userId p \<noteq> id_r (fst c)"
    using ev(3) by simp
  from registrations_succeed[OF found falsy assms(4) none, of toNum] ev(1,3) null
  show ?thesis by auto
qed

text \<open>An event created with \<open>maxParticipants\<close> 0 takes both attendees.\<close>

theorem falsy_maxParticipants_is_unlimited_witness:
  "\<not> truthy (obj zeroCapacityBody ''maxParticipants'')
   \<and> validateEvent (obj zeroCapacityBody ''title'') (obj zeroCapacityBody ''description'')
        (obj zeroCapacityBody ''date'') (obj zeroCapacityBody ''time'')
        (obj zeroCapacityBody ''location'') = []
   \<and> findEventById ''e'' [] = None
   \<and> distinct (map (\<lambda>c. id_r (fst c)) twoCallers)
   \<and> (\<exists>event.
         createEvent organizerO (obj zeroCapacityBody) ''e'' ''t0'' ''t0'' [] =
           (Res 201 (MessageEvent ''Event created successfully'' (Some event)), [] @ [event])
       \<and> maxParticipants event = JNull
       \<and> list_all (\<lambda>r. status r = Some 200)
           (fst (run noCoercion (registrations ''e'' twoCallers) ([] @ [event])))
       \<and> (\<exists>event'. findEventById ''e''
                       (snd (run noCoercion (registrations ''e'' twoCallers) ([] @ [event]))) =
                     Some event'
                  \<and> length (participants event') = length twoCallers))"
proof -
  have a: "\<not> truthy (obj zeroCapacityBody ''maxParticipants'')" by code_simp
  have b: "validateEvent (obj zeroCapacityBody ''title'') (obj zeroCapacityBody ''description'')
        (obj zeroCapacityBody ''date'') (obj zeroCapacityBody ''time'')
        (obj zeroCapacityBody ''location'') = []" by code_simp
  have c: "findEventById ''e'' [] = None" by (simp add: findEventById_def)
  have d: "distinct (map (\<lambda>c. id_r (fst c)) twoCallers)" by code_simp
  from falsy_maxParticipants_is_unlimited[OF a b c d, of organizerO "''t0''" "''t0''" noCoercion]
    a b c d
  show ?thesis by blast
qed

section \<open>User registration\<close>

lemma validateRegistration_Nil_iff:
  "validateRegistration nm email password role = [] \<longleftrightarrow>
     \<not> blank nm
     \<and> (\<exists>s. email = JStr s \<and> emailRegex_test s)
     \<and> (\<exists>s. password = JStr s \<and> 6 \<le> length s)
     \<and> (\<not> truthy role \<or> role = JStr ''organizer'' \<or> role = JStr ''attendee'')"
proof -
  have e: "(if \<not> truthy email \<or> typeof email \<noteq> ''string'' then [''Email is required'']
            else (case email of
                    JStr s \<Rightarrow> if \<not> emailRegex_test s then [''Invalid email format''] else []
                  | _ \<Rightarrow> [])) = [] \<longleftrightarrow> (\<exists>s. email = JStr s \<and> emailRegex_test s)"
    by (cases email) (auto simp: emailRegex_test_def)
  have p: "(if \<not> truthy password \<or> typeof password \<noteq> ''string'' then [''Password is required'']
            else (case password of
                    JStr s \<Rightarrow> if length s < 6 then [''Password must be at least 6 characters'']
                              else []
                  | _ \<Rightarrow> [])) = [] \<longleftrightarrow> (\<exists>s. password = JStr s \<and> 6 \<le> length s)"
    by (cases password) auto
  have r: "(if truthy role \<and> \<not> includes_js [''organizer'', ''attendee''] role
            then [''Role must be either 'organizer' or 'attendee'' @ [CHR 0x27]] else []) = []
           \<longleftrightarrow> (\<not> truthy role \<or> role = JStr ''organizer'' \<or> role = JStr ''attendee'')"
    by (cases role) auto
  have n: "required nm ''Name is required'' = [] \<longleftrightarrow> \<not> blank nm"
    by (simp add: required_def)
  show ?thesis
    unfolding validateRegistration_def append_is_Nil_conv e p r n by blast
qed

lemma register_rejected:
  "validateRegistration (b ''name'') (b ''email'') (b ''password'') (b ''role'') \<noteq> [] \<Longrightarrow>
     register hash sign b newId now users =
       (Res 400 (Errors (validateRegistration (b ''name'') (b ''email'') (b ''password'')
                           (b ''role''))), users)"
  by (simp add: register_def Let_def)

text \<open>
  Either the store is left as it was and the answer is not 201, or validation has passed
  and one user has been added; the latter also when the signing of the token throws.
\<close>

lemma register_outcome:
  "(status (fst (register hash sign b newId now users)) \<noteq> Some 201
      \<and> snd (register hash sign b newId now users) = users)
   \<or> (validateRegistration (b ''name'') (b ''email'') (b ''password'') (b ''role'') = []
      \<and> (\<exists>user. snd (register hash sign b newId now users) = users @ [user]
                \<and> role_u user = js_or (b ''role'') (JStr ''attendee'')))"
  by (auto simp: register_def Let_def addUser_def split: sum.splits)

text \<open>
  C8 (amended). For every sign-up, the shape of the body (a name that is not blank, an email
  that matches the pattern, a password of at least six characters, a role that is falsy or
  one of organizer and attendee) is checked before the user store is touched: when
  validateRegistration reports an error the answer is 400 with the errors and the store is
  unchanged, and the store is changed only after validation has passed. A truthy role
  outside organizer and attendee is such an error; a falsy role (undefined, null, the empty
  string, 0, false) is taken as omitted. Every user that is stored, and so the user of every
  answer 201, has the role sent, or attendee when the role is falsy, and in both cases one
  of organizer and attendee.
\<close>

theorem register_validates_before_storing:
  "(validateRegistration (b ''name'') (b ''email'') (b ''password'') (b ''role'') \<noteq> [] \<longrightarrow>
      register hash sign b newId now users =
        (Res 400 (Errors (validateRegistration (b ''name'') (b ''email'') (b ''password'')
                            (b ''role''))), users))
   \<and> (validateRegistration (b ''name'') (b ''email'') (b ''password'') (b ''role'') = [] \<longleftrightarrow>
        \<not> blank (b ''name'')
        \<and> (\<exists>s. b ''email'' = JStr s \<and> emailRegex_test s)
        \<and> (\<exists>s. b ''password'' = JStr s \<and> 6 \<le> length s)
        \<and> (\<not> truthy (b ''role'') \<or> b ''role'' = JStr ''organizer''
             \<or> b ''role'' = JStr ''attendee''))
   \<and> (snd (register hash sign b newId now users) \<noteq> users \<longrightarrow>
        validateRegistration (b ''name'') (b ''email'') (b ''password'') (b ''role'') = []
        \<and> (\<exists>user. snd (register hash sign b newId now users) = users @ [user]
               \<and> role_u user = (if truthy (b ''role'') then b ''role'' else JStr ''attendee'')
               \<and> (role_u user = JStr ''organizer'' \<or> role_u user = JStr ''attendee'')))
   \<and> (status (fst (register hash sign b newId now users)) = Some 201 \<longrightarrow>
        (\<exists>user. snd (register hash sign b newId now users) = users @ [user]
               \<and> role_u user = (if truthy (b ''role'') then b ''role'' else JStr ''attendee'')
               \<and> (role_u user = JStr ''organizer'' \<or> role_u user = JStr ''attendee'')))"
proof -
  note out = register_outcome[of hash sign b newId now users]
  have stored: "validateRegistration (b ''name'') (b ''email'') (b ''password'') (b ''role'') = []
      \<and> (\<exists>user. snd (register hash sign b newId now users) = users @ [user]
               \<and> role_u user = (if truthy (b ''role'') then b ''role'' else JStr ''attendee'')
               \<and> (role_u user = JStr ''organizer'' \<or> role_u user = JStr ''attendee''))"
    if "snd (register hash sign b newId now users) \<noteq> users
        \<or> status (fst (register hash sign b newId now users)) = Some 201"
  proof -
    from out that obtain user where
      v: "validateRegistration (b ''name'') (b ''email'') (b ''password'') (b ''role'') = []"
      and u: "snd (register hash sign b newId now users) = users @ [user]"
        "role_u user = js_or (b ''role'') (JStr ''attendee'')"
      by auto
    from v have "\<not> truthy (b ''role'') \<or> b ''role'' = JStr ''organizer''
                   \<or> b ''role'' = JStr ''attendee''"
      by (simp add: validateRegistration_Nil_iff)
    with u v show ?thesis by (auto simp: js_or_def)
  qed
  show ?thesis
    using register_rejected[of b hash sign newId now users]
      validateRegistration_Nil_iff[of "b ''name''" "b ''email''" "b ''password''" "b ''role''"]
      stored
    by blast
qed

text \<open>The role \<open>admin\<close> is refused before anything is stored; without a role the user is an
  attendee, also when the signing throws after the user has been added.\<close>

theorem register_validates_before_storing_witness:
  "validateRegistration (obj adminSignup ''name'') (obj adminSignup ''email'')
     (obj adminSignup ''password'') (obj adminSignup ''role'') \<noteq> []
   \<and> register bcryptStub signStub (obj adminSignup) ''u1'' ''t0'' [] =
       (Res 400 (Errors (validateRegistration (obj adminSignup ''name'')
                           (obj adminSignup ''email'') (obj adminSignup ''password'')
                           (obj adminSignup ''role''))), [])
   \<and> status (fst (register bcryptStub signStub (obj (signup ''test@example.com'')) ''u1'' ''t0''
                     [])) = Some 201
   \<and> (\<exists>user. snd (register bcryptStub signStub (obj (signup ''test@example.com'')) ''u1'' ''t0''
                      []) = [] @ [user]
            \<and> role_u user = JStr ''attendee'')
   \<and> snd (register bcryptStub signDown (obj (signup ''test@example.com'')) ''u1'' ''t0'' []) \<noteq> []
   \<and> status (fst (register bcryptStub signDown (obj (signup ''test@example.com'')) ''u1'' ''t0''
                     [])) = None
   \<and> validateRegistration (obj (signup ''test@example.com'') ''name'')
        (obj (signup ''test@example.com'') ''email'')
        (obj (signup ''test@example.com'') ''password'')
        (obj (signup ''test@example.com'') ''role'') = []
   \<and> (\<exists>user. snd (register bcryptStub signDown (obj (signup ''test@example.com'')) ''u1'' ''t0''
                      []) = [] @ [user]
            \<and> role_u user = JStr ''attendee'')"
proof -
  have d: "snd (register bcryptStub signDown (obj (signup ''test@example.com'')) ''u1'' ''t0'' [])
             \<noteq> []"
    by code_simp
  have e: "status (fst (register bcryptStub signDown (obj (signup ''test@example.com'')) ''u1''
                          ''t0'' [])) = None"
    by code_simp
  have a: "validateRegistration (obj adminSignup ''name'') (obj adminSignup ''email'')
             (obj adminSignup ''password'') (obj adminSignup ''role'') \<noteq> []"
    by code_simp
  have b: "status (fst (register bcryptStub signStub (obj (signup ''test@example.com'')) ''u1''
                          ''t0'' [])) = Some 201"
    by code_simp
  have c: "\<not> truthy (obj (signup ''test@example.com'') ''role'')"
    by code_simp
  from register_validates_before_storing[of "obj adminSignup" bcryptStub signStub "''u1''"
         "''t0''" "[]"] a
  have r1: "register bcryptStub signStub (obj adminSignup) ''u1'' ''t0'' [] =
       (Res 400 (Errors (validateRegistration (obj adminSignup ''name'')
                           (obj adminSignup ''email'') (obj adminSignup ''password'')
                           (obj adminSignup ''role''))), [])"
    by blast
  from register_validates_before_storing[of "obj (signup ''test@example.com'')" bcryptStub
         signStub "''u1''" "''t0''" "[]"] b
  have "\<exists>user. snd (register bcryptStub signStub (obj (signup ''test@example.com'')) ''u1'' ''t0''
                      []) = [] @ [user]
            \<and> role_u user = (if truthy (obj (signup ''test@example.com'') ''role'')
                              then obj (signup ''test@example.com'') ''role''
                              else JStr ''attendee'')"
    by blast
  with c have r2: "\<exists>user. snd (register bcryptStub signStub (obj (signup ''test@example.com''))
                                 ''u1'' ''t0'' []) = [] @ [user]
            \<and> role_u user = JStr ''attendee''"
    by simp
  from register_validates_before_storing[of "obj (signup ''test@example.com'')" bcryptStub
         signDown "''u1''" "''t0''" "[]"] d
  have r3: "validateRegistration (obj (signup ''test@example.com'') ''name'')
        (obj (signup ''test@example.com'') ''email'')
        (obj (signup ''test@example.com'') ''password'')
        (obj (signup ''test@example.com'') ''role'') = []"
    and "\<exists>user. snd (register bcryptStub signDown (obj (signup ''test@example.com'')) ''u1'' ''t0''
                      []) = [] @ [user]
            \<and> role_u user = (if truthy (obj (signup ''test@example.com'') ''role'')
                              then obj (signup ''test@example.com'') ''role''
                              else JStr ''attendee'')"
    by blast+
  with c have r4: "\<exists>user. snd (register bcryptStub signDown (obj (signup ''test@example.com''))
                                 ''u1'' ''t0'' []) = [] @ [user]
            \<and> role_u user = JStr ''attendee''"
    by simp
  from a b d e r1 r2 r3 r4 show ?thesis by blast
qed

text \<open>
  The claim as stated fails: the empty string is a role outside organizer and attendee,
  and the sign-up is answered 201 with an attendee stored.
\<close>

theorem empty_role_counterexample:
  "obj emptyRoleSignup ''role'' = JStr ''''
   \<and> \<not> includes_js [''organizer'', ''attendee''] (obj emptyRoleSignup ''role'')
   \<and> status (fst (register bcryptStub signStub (obj emptyRoleSignup) ''u1'' ''t0'' [])) = Some 201
   \<and> map role_u (snd (register bcryptStub signStub (obj emptyRoleSignup) ''u1'' ''t0'' [])) =
       [JStr ''attendee'']"
  by code_simp

text \<open>
  A sign-up that passes validation is answered 409, with the store unchanged, exactly when
  the email as sent is the email of a stored user.
\<close>

lemma register_conflict_iff:
  assumes "validateRegistration (b ''name'') (b ''email'') (b ''password'') (b ''role'') = []"
  shows "register hash sign b newId now users =
           (Res 409 (Error ''User with this email already exists''), users)
         \<longleftrightarrow> (\<exists>user\<in>set users. JStr (email_u user) = b ''email'')"
proof -
  have "findUserByEmail (b ''email'') users \<noteq> None
          \<longleftrightarrow> (\<exists>user\<in>set users. JStr (email_u user) = b ''email'')"
    by (auto simp: findUserByEmail_def find_None_iff)
  with assms show ?thesis
    by (auto simp: register_def Let_def split: sum.splits)
qed

text \<open>
  C2. A second sign-up whose email differs from a stored one only in the case of its letters
  is looked up as sent, not found, and stored under the same normalized email: the store
  then holds two users with the email \<open>test@example.com\<close>, and the second answer is 201,
  not 409.
\<close>

theorem register_case_variant_duplicate:
  "status (fst (register bcryptStub signStub (obj (signup ''test@example.com'')) ''u1'' ''t0'' [])) =
     Some 201
   \<and> status (fst (register bcryptStub signStub (obj (signup ''Test@Example.com'')) ''u2'' ''t1''
         (snd (register bcryptStub signStub (obj (signup ''test@example.com'')) ''u1'' ''t0'' [])))) =
       Some 201
   \<and> map email_u (snd (register bcryptStub signStub (obj (signup ''Test@Example.com'')) ''u2'' ''t1''
         (snd (register bcryptStub signStub (obj (signup ''test@example.com'')) ''u1'' ''t0'' [])))) =
       [''test@example.com'', ''test@example.com'']"
  by code_simp

section \<open>Updates\<close>

lemma spreadTrimmed_cases:
  "spreadTrimmed v = Inl TypeError \<and> truthy v \<and> typeof v \<noteq> ''string''
   \<or> spreadTrimmed v = Inr None \<and> \<not> truthy v
   \<or> (\<exists>s. v = JStr s \<and> s \<noteq> [] \<and> spreadTrimmed v = Inr (Some (trim s)))"
  by (cases v) (auto simp: spreadTrimmed_def)

lemma buildUpdatedData_TypeError:
  "\<not> textFields b \<Longrightarrow> buildUpdatedData b now = Inl TypeError"
  using spreadTrimmed_cases[of "b ''title''"] spreadTrimmed_cases[of "b ''description''"]
    spreadTrimmed_cases[of "b ''location''"]
  by (auto simp: textFields_def buildUpdatedData_def)

lemma buildUpdatedData_built:
  assumes "textFields b"
  shows "\<exists>d. buildUpdatedData b now = Inr d
           \<and> spreadTrimmed (b ''title'') = Inr (title_d d)
           \<and> spreadTrimmed (b ''description'') = Inr (description_d d)
           \<and> spreadTrimmed (b ''location'') = Inr (location_d d)
           \<and> date_d d = spreadValue (b ''date'')
           \<and> time_d d = spreadValue (b ''time'')
           \<and> maxParticipants_d d =
               (if b ''maxParticipants'' \<noteq> JUndefined then Some (b ''maxParticipants'') else None)
           \<and> updatedAt_d d = now"
  using assms spreadTrimmed_cases[of "b ''title''"] spreadTrimmed_cases[of "b ''description''"]
    spreadTrimmed_cases[of "b ''location''"]
  by (auto simp: textFields_def buildUpdatedData_def)

lemma findIndex_first: "findIndex P xs = Some k \<Longrightarrow> \<forall>j<k. \<not> P (xs ! j)"
proof (induction xs arbitrary: k)
  case Nil
  then show ?case by simp
next
  case (Cons x xs)
  then show ?case by (auto split: if_splits simp: less_Suc_eq_0_disj)
qed

lemma updateEventById_owner:
  assumes "findEventById i events = Some event" and "organizerId event = id_r usr"
    and "buildUpdatedData b now = Inr d"
  shows "\<exists>k. k < length events \<and> events ! k = event
           \<and> (\<forall>j<k. id_e (events ! j) \<noteq> i)
           \<and> updateEventById i usr b now events =
               (Res 200 (MessageEvent ''Event updated successfully'' (Some (merge event d))),
                events[k := merge event d])
           \<and> findEventById i (events[k := merge event d]) = Some (merge event d)"
proof -
  from assms(1) obtain k where k: "findIndex (\<lambda>event. id_e event = i) events = Some k"
      "k < length events" "events ! k = event" "id_e event = i"
    by (rule findEventById_index)
  from findIndex_first[OF k(1)] have first: "\<forall>j<k. id_e (events ! j) \<noteq> i" by simp
  have found: "findEventById i (events[k := merge event d]) = Some (merge event d)"
    unfolding findEventById_def using k by (simp add: find_update_first merge_def)
  from assms k first found show ?thesis
    by (auto simp: updateEventById_def updateEvent_def Let_def)
qed

lemma merge_fields:
  "id_e (merge event d) = id_e event" "organizerId (merge event d) = organizerId event"
  "participants (merge event d) = participants event" "createdAt (merge event d) = createdAt event"
  "updatedAt (merge event d) = updatedAt_d d"
  "title (merge event d) = (case title_d d of None \<Rightarrow> title event | Some v \<Rightarrow> v)"
  "description (merge event d) = (case description_d d of None \<Rightarrow> description event | Some v \<Rightarrow> v)"
  "location (merge event d) = (case location_d d of None \<Rightarrow> location event | Some v \<Rightarrow> v)"
  "date (merge event d) = (case date_d d of None \<Rightarrow> date event | Some v \<Rightarrow> v)"
  "time (merge event d) = (case time_d d of None \<Rightarrow> time event | Some v \<Rightarrow> v)"
  "maxParticipants (merge event d) =
     (case maxParticipants_d d of None \<Rightarrow> maxParticipants event | Some v \<Rightarrow> v)"
  by (simp_all add: merge_def)

lemma merged_text:
  assumes "spreadTrimmed v = Inr x"
  shows "(\<forall>s. v = JStr s \<and> s \<noteq> [] \<longrightarrow> (case x of None \<Rightarrow> old | Some t \<Rightarrow> t) = trim s)
         \<and> (\<not> truthy v \<longrightarrow> (case x of None \<Rightarrow> old | Some t \<Rightarrow> t) = old)"
  using assms by (auto simp: spreadTrimmed_def)

lemma merged_value:
  "(truthy v \<longrightarrow> (case spreadValue v of None \<Rightarrow> old | Some t \<Rightarrow> t) = v)
   \<and> (\<not> truthy v \<longrightarrow> (case spreadValue v of None \<Rightarrow> old | Some t \<Rightarrow> t) = old)"
  by (simp add: spreadValue_def)

text \<open>
  C5 (amended). For every existing event, its owner and every patch: when one of title,
  description and location is truthy and not a string the update fails with a TypeError and
  the store is unchanged; otherwise the update answers 200 and replaces the event, and only
  it, by an event in which a non-empty string title, description or location of the patch
  is stored trimmed, a truthy date or time is stored as sent, \<open>maxParticipants\<close> is stored
  whenever the key is present (every value but undefined, also null and 0), every field
  that is absent from the patch, and every falsy title, description, date, time or
  location, keeps its old value, \<open>updatedAt\<close> is the new clock reading, and \<open>id\<close>,
  \<open>organizerId\<close>, \<open>participants\<close> and \<open>createdAt\<close> are untouched. Omitting
  \<open>maxParticipants\<close> never changes it.
\<close>

theorem update_applies_truthy_fields:
  assumes "findEventById i events = Some event" and "organizerId event = id_r usr"
  shows "(\<not> textFields b \<longrightarrow> updateEventById i usr b now events = (Next TypeError, events))
   \<and> (textFields b \<longrightarrow>
        (\<exists>k event'. k < length events \<and> events ! k = event \<and> (\<forall>j<k. id_e (events ! j) \<noteq> i)
           \<and> updateEventById i usr b now events =
               (Res 200 (MessageEvent ''Event updated successfully'' (Some event')),
                events[k := event'])
           \<and> (\<forall>s. b ''title'' = JStr s \<and> s \<noteq> [] \<longrightarrow> title event' = trim s)
           \<and> (\<not> truthy (b ''title'') \<longrightarrow> title event' = title event)
           \<and> (\<forall>s. b ''description'' = JStr s \<and> s \<noteq> [] \<longrightarrow> description event' = trim s)
           \<and> (\<not> truthy (b ''description'') \<longrightarrow> description event' = description event)
           \<and> (\<forall>s. b ''location'' = JStr s \<and> s \<noteq> [] \<longrightarrow> location event' = trim s)
           \<and> (\<not> truthy (b ''location'') \<longrightarrow> location event' = location event)
           \<and> (truthy (b ''date'') \<longrightarrow> date event' = b ''date'')
           \<and> (\<not> truthy (b ''date'') \<longrightarrow> date event' = date event)
           \<and> (truthy (b ''time'') \<longrightarrow> time event' = b ''time'')
           \<and> (\<not> truthy (b ''time'') \<longrightarrow> time event' = time event)
           \<and> (b ''maxParticipants'' \<noteq> JUndefined \<longrightarrow>
                maxParticipants event' = b ''maxParticipants'')
           \<and> (b ''maxParticipants'' = JUndefined \<longrightarrow>
                maxParticipants event' = maxParticipants event)
           \<and> updatedAt event' = now
           \<and> id_e event' = id_e event \<and> organizerId event' = organizerId event
           \<and> participants event' = participants event \<and> createdAt event' = createdAt event))"
proof (cases "textFields b")
  case False
  with assms show ?thesis
    by (simp add: updateEventById_def buildUpdatedData_TypeError)
next
  case True
  from buildUpdatedData_built[OF True, of now] obtain d where
    d: "buildUpdatedData b now = Inr d"
      "spreadTrimmed (b ''title'') = Inr (title_d d)"
      "spreadTrimmed (b ''description'') = Inr (description_d d)"
      "spreadTrimmed (b ''location'') = Inr (location_d d)"
      "date_d d = spreadValue (b ''date'')" "time_d d = spreadValue (b ''time'')"
      "maxParticipants_d d =
         (if b ''maxParticipants'' \<noteq> JUndefined then Some (b ''maxParticipants'') else None)"
      "updatedAt_d d = now"
    by blast
  from updateEventById_owner[OF assms d(1)] obtain k where
    k: "k < length events" "events ! k = event" "\<forall>j<k. id_e (events ! j) \<noteq> i"
      "updateEventById i usr b now events =
         (Res 200 (MessageEvent ''Event updated successfully'' (Some (merge event d))),
          events[k := merge event d])"
    by blast
  have fields:
    "(\<forall>s. b ''title'' = JStr s \<and> s \<noteq> [] \<longrightarrow> title (merge event d) = trim s)
     \<and> (\<not> truthy (b ''title'') \<longrightarrow> title (merge event d) = title event)"
    "(\<forall>s. b ''description'' = JStr s \<and> s \<noteq> [] \<longrightarrow> description (merge event d) = trim s)
     \<and> (\<not> truthy (b ''description'') \<longrightarrow> description (merge event d) = description event)"
    "(\<forall>s. b ''location'' = JStr s \<and> s \<noteq> [] \<longrightarrow> location (merge event d) = trim s)
     \<and> (\<not> truthy (b ''location'') \<longrightarrow> location (merge event d) = location event)"
    "(truthy (b ''date'') \<longrightarrow> date (merge event d) = b ''date'')
     \<and> (\<not> truthy (b ''date'') \<longrightarrow> date (merge event d) = date event)"
    "(truthy (b ''time'') \<longrightarrow> time (merge event d) = b ''time'')
     \<and> (\<not> truthy (b ''time'') \<longrightarrow> time (merge event d) = time event)"
    "(b ''maxParticipants'' \<noteq> JUndefined \<longrightarrow>
        maxParticipants (merge event d) = b ''maxParticipants'')
     \<and> (b ''maxParticipants'' = JUndefined \<longrightarrow>
        maxParticipants (merge event d) = maxParticipants event)"
    "updatedAt (merge event d) = now"
    unfolding merge_fields d(5-8)
    using merged_text[OF d(2)] merged_text[OF d(3)] merged_text[OF d(4)] merged_value
    by simp_all
  from True k fields merge_fields(1-4)[of event d] show ?thesis by blast
qed

text \<open>The owner renames the event of capacity 1.\<close>

theorem update_applies_truthy_fields_witness:
  "findEventById ''e'' [seatTaken] = Some seatTaken
   \<and> organizerId seatTaken = id_r organizerO
   \<and> textFields (obj retitle)
   \<and> (\<exists>k event'. k < length [seatTaken] \<and> [seatTaken] ! k = seatTaken
         \<and> updateEventById ''e'' organizerO (obj retitle) ''t5'' [seatTaken] =
             (Res 200 (MessageEvent ''Event updated successfully'' (Some event')),
              [seatTaken][k := event'])
         \<and> title event' = trim ''Updated Event Title''
         \<and> location event' = location seatTaken
         \<and> maxParticipants event' = maxParticipants seatTaken
         \<and> participants event' = participants seatTaken
         \<and> updatedAt event' = ''t5'')
   \<and> \<not> textFields (obj numericTitle)
   \<and> updateEventById ''e'' organizerO (obj numericTitle) ''t5'' [seatTaken] =
       (Next TypeError, [seatTaken])"
proof -
  have a: "findEventById ''e'' [seatTaken] = Some seatTaken"
    by (simp add: findEventById_def seatTaken_def)
  have b: "organizerId seatTaken = id_r organizerO"
    by (simp add: organizerO_def seatTaken_def)
  have c: "textFields (obj retitle)" by code_simp
  have d: "obj retitle ''title'' = JStr ''Updated Event Title''"
    "\<not> truthy (obj retitle ''location'')" "obj retitle ''maxParticipants'' = JUndefined"
    by (simp_all add: obj_def retitle_def)
  from update_applies_truthy_fields[OF a b, of "obj retitle" "''t5''"] c
  obtain k event' where r: "k < length [seatTaken]" "[seatTaken] ! k = seatTaken"
    "updateEventById ''e'' organizerO (obj retitle) ''t5'' [seatTaken] =
       (Res 200 (MessageEvent ''Event updated successfully'' (Some event')),
        [seatTaken][k := event'])"
    "\<forall>s. obj retitle ''title'' = JStr s \<and> s \<noteq> [] \<longrightarrow> title event' = trim s"
    "\<not> truthy (obj retitle ''location'') \<longrightarrow> location event' = location seatTaken"
    "obj retitle ''maxParticipants'' = JUndefined \<longrightarrow>
       maxParticipants event' = maxParticipants seatTaken"
    "participants event' = participants seatTaken" "updatedAt event' = ''t5''"
    by blast
  from r(4) d(1) have t: "title event' = trim ''Updated Event Title''" by simp
  have e: "\<not> textFields (obj numericTitle)" by code_simp
  from update_applies_truthy_fields[OF a b, of "obj numericTitle" "''t5''"] e
  have f: "updateEventById ''e'' organizerO (obj numericTitle) ''t5'' [seatTaken] =
             (Next TypeError, [seatTaken])"
    by blast
  from r d t a b c e f show ?thesis by blast
qed

text \<open>
  The claim as stated fails twice. An empty title is present in the patch and is not
  applied: the update answers 200 and the title stays. And \<open>maxParticipants\<close> 0, which is
  not the sentinel null, lifts the limit: the full event turns the second attendee away
  before the update and takes the registration after it.
\<close>

theorem present_field_not_applied_counterexample:
  "obj emptyTitle ''title'' = JStr ''''
   \<and> status (fst (updateEventById ''e'' organizerO (obj emptyTitle) ''t5'' [seatTaken])) = Some 200
   \<and> map title (snd (updateEventById ''e'' organizerO (obj emptyTitle) ''t5'' [seatTaken])) =
       [''Limited Event'']
   \<and> status (fst (fst (registerForEvent noCoercion mailUp ''e'' attendeeA2 ''t6'' [seatTaken]))) =
       Some 400
   \<and> map maxParticipants
       (snd (updateEventById ''e'' organizerO (obj zeroCapacity) ''t5'' [seatTaken])) = [JNum 0]
   \<and> status (fst (fst (registerForEvent noCoercion mailUp ''e'' attendeeA2 ''t6''
         (snd (updateEventById ''e'' organizerO (obj zeroCapacity) ''t5'' [seatTaken]))))) =
       Some 200"
  by code_simp








end
